theory Spec2Isabelle
  imports Main "HOL-Library.Word" "HOL-Library.Char_ord" "HOL-Library.List_Lexorder"
begin

section \<open>Data model of \<^verbatim>\<open>setandelement.cpp\<close>\<close>

text \<open>
  A \<^verbatim>\<open>handle\<close> is an unsigned 64-bit integer, \<^verbatim>\<open>m_time_t\<close> and the order of an element
  are 64-bit integers; all three are 64-bit words here. A \<^verbatim>\<open>std::string\<close> is a byte
  string, \<^typ>\<open>string\<close>. The order on strings is the lexicographic order on bytes, as
  \<^verbatim>\<open>std::string::compare\<close> has it.
\<close>

type_synonym handle = "64 word"

text \<open>
  \<^verbatim>\<open>string_map\<close> is \<^verbatim>\<open>std::map<string, string>\<close>: the entries in ascending key order,
  no key twice. The model is the list of entries in iteration order; \<open>wf_map\<close> is the
  invariant every \<^verbatim>\<open>std::map\<close> has.
\<close>

type_synonym string_map = "(string \<times> string) list"

definition wf_map :: "string_map \<Rightarrow> bool" where
  "wf_map m \<longleftrightarrow> sorted_wrt (<) (map fst m)"

text \<open>\<^verbatim>\<open>std::map::find\<close>: the value stored under a key, if any.\<close>

fun map_find :: "string_map \<Rightarrow> string \<Rightarrow> string option" where
  "map_find [] k = None"
| "map_find ((k', v') # m) k = (if k = k' then Some v' else map_find m k)"

text \<open>\<^verbatim>\<open>m[k] = v\<close>: overwrite the value of an existing key, or insert the entry in key order.\<close>

fun map_assign :: "string_map \<Rightarrow> string \<Rightarrow> string \<Rightarrow> string_map" where
  "map_assign [] k v = [(k, v)]"
| "map_assign ((k', v') # m) k v =
     (if k < k' then (k, v) # (k', v') # m
      else if k = k' then (k, v) # m
      else (k', v') # map_assign m k v)"

text \<open>\<^verbatim>\<open>std::map::erase(key)\<close>.\<close>

fun map_erase :: "string_map \<Rightarrow> string \<Rightarrow> string_map" where
  "map_erase [] k = []"
| "map_erase ((k', v') # m) k = (if k = k' then m else (k', v') # map_erase m k)"

text \<open>
  \<^verbatim>\<open>CommonSE\<close>, the base class of \<^verbatim>\<open>Set\<close> and \<^verbatim>\<open>SetElement\<close>, and the two classes.
  The members are the ones \<^verbatim>\<open>setandelement.cpp\<close> reads and writes; the change bitmask
  (behind \<^verbatim>\<open>setChanged\<close> and \<^verbatim>\<open>changes\<close>) and the cleared flag (behind
  \<^verbatim>\<open>hasAttrsClearedByLastUpdate\<close>) are the two it reaches through members of the
  header only. A \<^verbatim>\<open>unique_ptr\<close> member is an option: \<open>None\<close> is the null pointer. The
  change bitmask is a natural number read bitwise.
\<close>

record CommonSE =
  mId :: handle
  mKey :: string
  mAttrs :: "string_map option"
  mTs :: "64 word"
  mEncryptedAttrs :: "string option"

record Set = CommonSE +
  mUser :: handle
  mChanges :: nat

record SetElement = CommonSE +
  mSetId :: handle
  mNodeHandle :: handle
  mOrder :: "64 word option"
  mAttrsClearedByLastUpdate :: bool
  mChangesEl :: nat

text \<open>
  The declarations of \<^verbatim>\<open>mega/setandelement.h\<close> and \<^verbatim>\<open>mega/types.h\<close> are not among
  the sources; the constants and inline members that \<^verbatim>\<open>setandelement.cpp\<close> uses are
  modelled from the spec, each under its own remark.
\<close>

text \<open>Modelled from the spec: \<^verbatim>\<open>UNDEF\<close>, the "undefined handle" sentinel, all bits set.\<close>

definition UNDEF :: handle where
  "UNDEF = - 1"

text \<open>
  Modelled from the spec: \<^verbatim>\<open>CommonSE::nameTag\<close>, the attribute tag of the name; the tag
  \<^verbatim>\<open>"n"\<close> of the spec's examples.
\<close>

definition nameTag :: string where
  "nameTag = ''n''"

text \<open>
  Modelled from the spec: \<^verbatim>\<open>Set::coverTag\<close>, the attribute tag of the cover; the tag
  \<^verbatim>\<open>"c"\<close> of the spec's examples.
\<close>

definition coverTag :: string where
  "coverTag = ''c''"

text \<open>
  Modelled from the spec: \<^verbatim>\<open>SetElement::HANDLESIZE\<close>, the width in bytes of the binary
  handle the cover attribute decodes to; a handle is 64 bits.
\<close>

definition HANDLESIZE :: nat where
  "HANDLESIZE = 8"

text \<open>
  Modelled from the spec: the enumerators \<^verbatim>\<open>CH_NAME\<close>, \<^verbatim>\<open>CH_COVER\<close> of \<^verbatim>\<open>Set\<close> and
  \<^verbatim>\<open>CH_EL_NAME\<close>, \<^verbatim>\<open>CH_EL_ORDER\<close> of \<^verbatim>\<open>SetElement\<close>: bit positions in the change
  bitmask, one bit per tracked field and per entity kind.
\<close>

definition CH_NAME :: nat where
  "CH_NAME = 1"

definition CH_COVER :: nat where
  "CH_COVER = 2"


definition CH_EL_ORDER :: nat where
  "CH_EL_ORDER = 2"

text \<open>Modelled from the spec: \<^verbatim>\<open>CommonSE::setTs\<close>, which stores the timestamp.\<close>

definition setTs :: "64 word \<Rightarrow> 'a CommonSE_scheme \<Rightarrow> 'a CommonSE_scheme" where
  "setTs ts s = s\<lparr>mTs := ts\<rparr>"


text \<open>
  Modelled from the spec: \<^verbatim>\<open>Set::setChanged\<close>, which sets one bit of the change bitmask
  (the bitmask is set-only during a merge).
\<close>

definition Set_setChanged :: "nat \<Rightarrow> Set \<Rightarrow> Set" where
  "Set_setChanged changeType s = s\<lparr>mChanges := set_bit changeType (mChanges s)\<rparr>"

text \<open>Modelled from the spec: \<^verbatim>\<open>Set::changes\<close> read as a truth value, "any bit is set".\<close>

definition Set_changes :: "Set \<Rightarrow> bool" where
  "Set_changes s \<longleftrightarrow> mChanges s \<noteq> 0"

text \<open>Modelled from the spec: \<^verbatim>\<open>SetElement::setChanged\<close>, as for a set.\<close>

definition SetElement_setChanged :: "nat \<Rightarrow> SetElement \<Rightarrow> SetElement" where
  "SetElement_setChanged changeType el = el\<lparr>mChangesEl := set_bit changeType (mChangesEl el)\<rparr>"



section \<open>CommonSE\<close>

text \<open>\<^verbatim>\<open>CommonSE::setAttr\<close>: allocate the map if it is absent, then assign.\<close>

definition setAttr :: "string \<Rightarrow> string \<Rightarrow> 'a CommonSE_scheme \<Rightarrow> 'a CommonSE_scheme" where
  "setAttr tag val s =
     (let m = (case mAttrs s of None \<Rightarrow> [] | Some m \<Rightarrow> m)
      in s\<lparr>mAttrs := Some (map_assign m tag val)\<rparr>)"

text \<open>\<^verbatim>\<open>CommonSE::getAttr\<close>: the empty string if the map is absent or has no such tag.\<close>

definition getAttr :: "string \<Rightarrow> 'a CommonSE_scheme \<Rightarrow> string" where
  "getAttr tag s =
     (case mAttrs s of
        None \<Rightarrow> []
      | Some m \<Rightarrow> (case map_find m tag of Some v \<Rightarrow> v | None \<Rightarrow> []))"

text \<open>\<^verbatim>\<open>CommonSE::hasAttrChanged\<close>.\<close>

definition hasAttrChanged :: "string \<Rightarrow> string_map option \<Rightarrow> 'a CommonSE_scheme \<Rightarrow> bool" where
  "hasAttrChanged tag otherAttrs s =
     (let otherValue =
            (case otherAttrs of
               None \<Rightarrow> []
             | Some m \<Rightarrow> (case map_find m tag of Some v \<Rightarrow> v | None \<Rightarrow> []))
      in getAttr tag s \<noteq> otherValue)"

text \<open>
  \<^verbatim>\<open>CommonSE::rebaseCommonAttrsOn\<close>. The loop over the local entries is
  \<open>rebase_loop\<close>: an entry with an empty value erases its tag from the copy of the
  base, any other entry overwrites it.
\<close>

fun rebase_loop :: "string_map \<Rightarrow> string_map \<Rightarrow> string_map" where
  "rebase_loop [] rebased = rebased"
| "rebase_loop ((k, v) # as) rebased =
     rebase_loop as (if v = [] then map_erase rebased k else map_assign rebased k v)"

definition rebaseCommonAttrsOn :: "string_map option \<Rightarrow> 'a CommonSE_scheme \<Rightarrow> 'a CommonSE_scheme" where
  "rebaseCommonAttrsOn baseAttrs s =
     (case baseAttrs of
        None \<Rightarrow> s
      | Some base \<Rightarrow>
          (let attrs = (case mAttrs s of None \<Rightarrow> [] | Some m \<Rightarrow> m);
               attrs' = (if attrs = [] then base else rebase_loop attrs base)
           in s\<lparr>mAttrs := (if attrs' = [] then None else Some attrs')\<rparr>))"

text \<open>
  \<^verbatim>\<open>CommonSE::decryptAttributes\<close>. The callback \<open>f\<close> gets the blob, the key and the
  fresh map it is to fill; it answers with its success flag and the filled map. It may
  have effects of its own, so it also transforms a state \<open>w\<close> of the caller's world;
  on a path that does not run the callback, \<open>w\<close> comes back as it was.
\<close>

definition decryptAttributes ::
  "(string \<Rightarrow> string \<Rightarrow> string_map \<Rightarrow> 'w \<Rightarrow> bool \<times> string_map \<times> 'w) \<Rightarrow>
   'a CommonSE_scheme \<Rightarrow> 'w \<Rightarrow> bool \<times> 'a CommonSE_scheme \<times> 'w" where
  "decryptAttributes f s w =
     (case mEncryptedAttrs s of
        None \<Rightarrow> (True, s, w)
      | Some blob \<Rightarrow>
          if blob = [] then (True, s\<lparr>mAttrs := Some [], mEncryptedAttrs := None\<rparr>, w)
          else
            (case f blob (mKey s) [] w of
               (ok, newAttrs, w') \<Rightarrow>
                 if ok then (True, s\<lparr>mAttrs := Some newAttrs, mEncryptedAttrs := None\<rparr>, w')
                 else (False, s, w')))"

section \<open>Set and SetElement: merging an update\<close>

text \<open>
  \<^verbatim>\<open>Set::updateWith\<close>. The result is the returned flag and the updated set; the
  argument is an rvalue the caller drops, so its state after the swap is not returned.
\<close>

definition Set_updateWith :: "Set \<Rightarrow> Set \<Rightarrow> bool \<times> Set" where
  "Set_updateWith this s =
     (let t1 = setTs (mTs s) this;
          t2 = (if hasAttrChanged nameTag (mAttrs s) t1 then Set_setChanged CH_NAME t1 else t1);
          t3 = (if hasAttrChanged coverTag (mAttrs s) t2 then Set_setChanged CH_COVER t2 else t2);
          t4 = t3\<lparr>mAttrs := mAttrs s\<rparr>
      in (Set_changes t4, t4))"

text \<open>\<^verbatim>\<open>SetElement::setOrder\<close>.\<close>

definition SetElement_setOrder :: "64 word \<Rightarrow> SetElement \<Rightarrow> SetElement" where
  "SetElement_setOrder order' el =
     (case mOrder el of
        None \<Rightarrow> SetElement_setChanged CH_EL_ORDER (el\<lparr>mOrder := Some order'\<rparr>)
      | Some cur \<Rightarrow>
          if cur \<noteq> order' then SetElement_setChanged CH_EL_ORDER (el\<lparr>mOrder := Some order'\<rparr>)
          else el)"


section \<open>Set: the cover\<close>

text \<open>
  A fixed-width integer in memory is its bytes in little-endian order (the byte order
  of the hosts the SDK runs on): \<open>le_bytes n v\<close> are the \<open>n\<close> low bytes of \<open>v\<close>,
  \<open>le_val\<close> is the value of a byte sequence.
\<close>

fun le_bytes :: "nat \<Rightarrow> nat \<Rightarrow> string" where
  "le_bytes 0 v = []"
| "le_bytes (Suc n) v = char_of (v mod 256) # le_bytes n (v div 256)"

fun le_val :: "string \<Rightarrow> nat" where
  "le_val [] = 0"
| "le_val (c # cs) = of_char c + 256 * le_val cs"

text \<open>
  \<^verbatim>\<open>Base64::atob\<close> of \<^verbatim>\<open>mega/base64.h\<close> is not among the sources. The spec says only
  that the cover attribute is base64-decoded into a fixed-width binary handle; the
  decoder is modelled from that, in four steps.
\<close>

text \<open>
  Modelled from the spec: \<^verbatim>\<open>Base64::from64\<close>, the 6-bit value of a character of the
  base64 alphabet (with both spellings of the two last digits), and 255 for any other
  character.
\<close>

definition from64 :: "char \<Rightarrow> nat" where
  "from64 c =
     (let n = (of_char c :: nat) in
      if 65 \<le> n \<and> n \<le> 90 then n - 65
      else if 97 \<le> n \<and> n \<le> 122 then n - 97 + 26
      else if 48 \<le> n \<and> n \<le> 57 then n - 48 + 52
      else if c = CHR ''-'' \<or> c = CHR ''+'' then 62
      else if c = CHR ''_'' \<or> c = CHR '','' \<or> c = CHR ''/'' then 63
      else 255)"

text \<open>
  Modelled from the spec: the part of \<^verbatim>\<open>Base64::atob\<close> that reads characters; decoding
  stops at the first character outside the alphabet (the end of the C string is one).
\<close>

fun atob_chars :: "string \<Rightarrow> nat list" where
  "atob_chars [] = []"
| "atob_chars (a # as) = (if from64 a = 255 then [] else from64 a # atob_chars as)"

text \<open>
  Modelled from the spec: the part of \<^verbatim>\<open>Base64::atob\<close> that packs 6-bit values into
  bytes: four values give three bytes, a last group of three or two values gives two
  bytes or one.
\<close>

fun atob_bytes :: "nat list \<Rightarrow> string" where
  "atob_bytes (c0 # c1 # c2 # c3 # cs) =
     char_of (c0 * 4 + c1 div 16) # char_of (c1 mod 16 * 16 + c2 div 4)
       # char_of (c2 mod 4 * 64 + c3) # atob_bytes cs"
| "atob_bytes [c0, c1, c2] = [char_of (c0 * 4 + c1 div 16), char_of (c1 mod 16 * 16 + c2 div 4)]"
| "atob_bytes [c0, c1] = [char_of (c0 * 4 + c1 div 16)]"
| "atob_bytes cs = []"

text \<open>
  Modelled from the spec: \<^verbatim>\<open>Base64::atob(a, b, blen)\<close>, which writes at most \<open>blen\<close>
  decoded bytes. The result is the sequence of bytes written to \<open>b\<close>; its length is
  the count the C function returns.
\<close>

definition atob :: "string \<Rightarrow> nat \<Rightarrow> string" where
  "atob a blen = take blen (atob_bytes (atob_chars a))"

text \<open>
  \<^verbatim>\<open>Set::cover\<close>. The handle \<open>h\<close> starts as 0 and \<open>atob\<close> writes its bytes over the low
  bytes of \<open>h\<close>; the count \<open>atob\<close> returns is not looked at. So \<open>h\<close> is the
  little-endian value of the bytes written.
\<close>

definition Set_cover :: "Set \<Rightarrow> handle" where
  "Set_cover s =
     (let hs = getAttr coverTag s
      in if hs \<noteq> [] then word_of_nat (le_val (atob hs HANDLESIZE)) else UNDEF)"

section \<open>The cache format\<close>

text \<open>
  \<^verbatim>\<open>CacheableWriter\<close> and \<^verbatim>\<open>CacheableReader\<close> of \<^verbatim>\<open>mega/utils.h\<close> are not among the
  sources. The spec describes the fields they write and read as self-delimiting:
  integers of fixed width (a handle and an i64 are 64 bits, a u32 is 32 bits, a node
  handle has a width of its own), a timestamp "variable-length-compressed", a string
  "length-prefixed", and a region of 8 expansion flags, all zero when written. The
  spec gives no width for the node handle or for the length prefix of a string, and
  no layout for the compressed integer; the model fixes them as said at each
  definition.

  A writer call appends to the destination string. A reader call takes the input
  that is left; it answers \<open>None\<close> when the field does not fit in it, and the value
  together with the input left after the field otherwise.
\<close>

text \<open>
  Modelled from the spec: the width in bytes of a node handle on the wire
  (\<^verbatim>\<open>MegaClient::NODEHANDLE\<close>); the model takes 6.
\<close>

definition NODEHANDLE :: nat where
  "NODEHANDLE = 6"

text \<open>Modelled from the spec: \<^verbatim>\<open>CacheableWriter::serializehandle\<close>, a handle in 8 bytes.\<close>

definition serializehandle :: "handle \<Rightarrow> string \<Rightarrow> string" where
  "serializehandle field dest = dest @ le_bytes 8 (unat field)"

text \<open>
  Modelled from the spec: \<^verbatim>\<open>CacheableWriter::serializenodehandle\<close>, the \<open>NODEHANDLE\<close> low
  bytes of a handle.
\<close>

definition serializenodehandle :: "handle \<Rightarrow> string \<Rightarrow> string" where
  "serializenodehandle field dest = dest @ le_bytes NODEHANDLE (unat field)"

text \<open>Modelled from the spec: \<^verbatim>\<open>CacheableWriter::serializei64\<close>, an i64 in 8 bytes.\<close>

definition serializei64 :: "64 word \<Rightarrow> string \<Rightarrow> string" where
  "serializei64 field dest = dest @ le_bytes 8 (unat field)"

text \<open>Modelled from the spec: \<^verbatim>\<open>CacheableWriter::serializeu32\<close>, a u32 in 4 bytes.\<close>

definition serializeu32 :: "32 word \<Rightarrow> string \<Rightarrow> string" where
  "serializeu32 field dest = dest @ le_bytes 4 (unat field)"

text \<open>
  Modelled from the spec: \<^verbatim>\<open>CacheableWriter::serializestring\<close>, a length-prefixed string.
  The model takes a 16-bit prefix; a string of \<open>2 ^ 16\<close> bytes or more is cut to its
  length modulo \<open>2 ^ 16\<close>.
\<close>

definition serializestring :: "string \<Rightarrow> string \<Rightarrow> string" where
  "serializestring field dest =
     (let ll = length field mod 65536 in dest @ le_bytes 2 ll @ take ll field)"

text \<open>
  Modelled from the spec: the bytes of a compressed integer (\<^verbatim>\<open>Serialize64::serialize\<close>):
  the bytes of the value, low byte first, up to its highest non-zero byte.
\<close>

fun Serialize64_bytes :: "nat \<Rightarrow> string" where
  "Serialize64_bytes v = (if v = 0 then [] else char_of (v mod 256) # Serialize64_bytes (v div 256))"

declare Serialize64_bytes.simps [simp del]

text \<open>
  Modelled from the spec: \<^verbatim>\<open>CacheableWriter::serializecompressed64\<close>: one byte holding
  the count of bytes that follow, then the bytes of the value.
\<close>

definition serializecompressed64 :: "64 word \<Rightarrow> string \<Rightarrow> string" where
  "serializecompressed64 field dest =
     (let bs = Serialize64_bytes (unat field) in dest @ char_of (length bs) # bs)"

text \<open>
  Modelled from the spec: \<^verbatim>\<open>CacheableWriter::serializeexpansionflags\<close> with no flag set:
  8 zero bytes.
\<close>

definition serializeexpansionflags :: "string \<Rightarrow> string" where
  "serializeexpansionflags dest = dest @ replicate 8 (CHR 0x00)"

text \<open>Modelled from the spec: \<^verbatim>\<open>CacheableReader::unserializehandle\<close>.\<close>

definition unserializehandle :: "string \<Rightarrow> (handle \<times> string) option" where
  "unserializehandle d =
     (if length d < 8 then None else Some (word_of_nat (le_val (take 8 d)), drop 8 d))"

text \<open>
  Modelled from the spec: \<^verbatim>\<open>CacheableReader::unserializenodehandle\<close>; the bytes of the
  handle above the \<open>NODEHANDLE\<close> read are zero.
\<close>

definition unserializenodehandle :: "string \<Rightarrow> (handle \<times> string) option" where
  "unserializenodehandle d =
     (if length d < NODEHANDLE then None
      else Some (word_of_nat (le_val (take NODEHANDLE d)), drop NODEHANDLE d))"

text \<open>Modelled from the spec: \<^verbatim>\<open>CacheableReader::unserializei64\<close>.\<close>

definition unserializei64 :: "string \<Rightarrow> (64 word \<times> string) option" where
  "unserializei64 d =
     (if length d < 8 then None else Some (word_of_nat (le_val (take 8 d)), drop 8 d))"

text \<open>Modelled from the spec: \<^verbatim>\<open>CacheableReader::unserializeu32\<close>.\<close>

definition unserializeu32 :: "string \<Rightarrow> (32 word \<times> string) option" where
  "unserializeu32 d =
     (if length d < 4 then None else Some (word_of_nat (le_val (take 4 d)), drop 4 d))"

text \<open>
  Modelled from the spec: \<^verbatim>\<open>CacheableReader::unserializestring\<close>: it fails when the
  prefix does not fit, or when fewer bytes are left than the prefix announces.
\<close>

definition unserializestring :: "string \<Rightarrow> (string \<times> string) option" where
  "unserializestring d =
     (if length d < 2 then None
      else (let len = le_val (take 2 d)
            in if length d - 2 < len then None
               else Some (take len (drop 2 d), drop (2 + len) d)))"

text \<open>
  Modelled from the spec: \<^verbatim>\<open>CacheableReader::unserializecompressed64\<close>: it fails on a
  count above 8 and on a count that the input left cannot hold.
\<close>

definition unserializecompressed64 :: "string \<Rightarrow> (64 word \<times> string) option" where
  "unserializecompressed64 d =
     (case d of
        [] \<Rightarrow> None
      | p # bs \<Rightarrow>
          if of_char p > (8::nat) \<or> of_char p \<ge> length d then None
          else Some (word_of_nat (le_val (take (of_char p) bs)), drop (of_char p) bs))"

text \<open>
  Modelled from the spec: \<^verbatim>\<open>CacheableReader::unserializeexpansionflags\<close>: it consumes
  the 8 bytes of the region and, as the spec has it, does not look at flags it does
  not know. \<open>usedFlagCount\<close> is 0 at both call sites of \<^verbatim>\<open>setandelement.cpp\<close>.
\<close>

definition unserializeexpansionflags :: "string \<Rightarrow> nat \<Rightarrow> (string \<times> string) option" where
  "unserializeexpansionflags d usedFlagCount =
     (if length d < 8 then None else Some (take 8 d, drop 8 d))"

text \<open>
  Modelled from the spec: the constructor \<^verbatim>\<open>Set(id, key, user, attrs)\<close> of
  \<^verbatim>\<open>setandelement.h\<close>. It fills the identity fields and allocates the attribute map
  from \<open>attrs\<close>, also when \<open>attrs\<close> is empty (hence the spec's "empty map after
  encode/decode compares equal to absent map"); the timestamp is 0, there is no
  encrypted blob and no change bit.
\<close>

definition Set_new :: "handle \<Rightarrow> string \<Rightarrow> handle \<Rightarrow> string_map \<Rightarrow> Set" where
  "Set_new id' key user attrs =
     \<lparr>mId = id', mKey = key, mAttrs = Some attrs, mTs = 0, mEncryptedAttrs = None,
      mUser = user, mChanges = 0\<rparr>"

text \<open>
  Modelled from the spec: the constructor \<^verbatim>\<open>SetElement(sid, node, elemId, key, attrs)\<close>
  of \<^verbatim>\<open>setandelement.h\<close>, as for a set; there is no order yet and the cleared flag is
  false.
\<close>

definition SetElement_new :: "handle \<Rightarrow> handle \<Rightarrow> handle \<Rightarrow> string \<Rightarrow> string_map \<Rightarrow> SetElement" where
  "SetElement_new sid node elemId key attrs =
     \<lparr>mId = elemId, mKey = key, mAttrs = Some attrs, mTs = 0, mEncryptedAttrs = None,
      mSetId = sid, mNodeHandle = node, mOrder = None, mAttrsClearedByLastUpdate = False,
      mChangesEl = 0\<rparr>"

text \<open>
  \<^verbatim>\<open>Set::serialize\<close> appends the record to \<open>d\<close> and returns true. The loop over the
  attributes is \<open>serialize_attrs\<close>. The count is written as \<^verbatim>\<open>(uint32_t)asize\<close>, the
  loop is guarded by \<open>asize\<close> itself.
\<close>

fun serialize_attrs :: "string_map \<Rightarrow> string \<Rightarrow> string" where
  "serialize_attrs [] d = d"
| "serialize_attrs ((k, v) # as) d = serialize_attrs as (serializestring v (serializestring k d))"

definition Set_serialize :: "Set \<Rightarrow> string \<Rightarrow> bool \<times> string" where
  "Set_serialize s d =
     (let r1 = serializehandle (mId s) d;
          r2 = serializehandle (mUser s) r1;
          r3 = serializecompressed64 (mTs s) r2;
          r4 = serializestring (mKey s) r3;
          asize = (case mAttrs s of Some m \<Rightarrow> length m | None \<Rightarrow> 0);
          r5 = serializeu32 (word_of_nat asize) r4;
          r6 = (case mAttrs s of
                  Some m \<Rightarrow> if asize \<noteq> 0 then serialize_attrs m r5 else r5
                | None \<Rightarrow> r5);
          r7 = serializeexpansionflags r6
      in (True, r7))"

text \<open>
  \<^verbatim>\<open>Set::unserialize\<close> reads from the start of \<open>d\<close>. Each failed read returns
  \<^verbatim>\<open>nullptr\<close>, here \<open>None\<close>. The loop reading \<open>attrCount\<close> pairs into a map is
  \<open>unserialize_attrs\<close>.
\<close>

fun unserialize_attrs :: "nat \<Rightarrow> string_map \<Rightarrow> string \<Rightarrow> (string_map \<times> string) option" where
  "unserialize_attrs 0 attrs d = Some (attrs, d)"
| "unserialize_attrs (Suc n) attrs d =
     (case unserializestring d of
        None \<Rightarrow> None
      | Some (ak, d1) \<Rightarrow>
          (case unserializestring d1 of
             None \<Rightarrow> None
           | Some (av, d2) \<Rightarrow> unserialize_attrs n (map_assign attrs ak av) d2))"

definition Set_unserialize :: "string \<Rightarrow> Set option" where
  "Set_unserialize d =
     (case unserializehandle d of None \<Rightarrow> None | Some (id', r1) \<Rightarrow>
      case unserializehandle r1 of None \<Rightarrow> None | Some (u, r2) \<Rightarrow>
      case unserializecompressed64 r2 of None \<Rightarrow> None | Some (ts, r3) \<Rightarrow>
      case unserializestring r3 of None \<Rightarrow> None | Some (k, r4) \<Rightarrow>
      case unserializeu32 r4 of None \<Rightarrow> None | Some (attrCount, r5) \<Rightarrow>
      case unserialize_attrs (unat attrCount) [] r5 of None \<Rightarrow> None | Some (attrs, r6) \<Rightarrow>
      case unserializeexpansionflags r6 0 of None \<Rightarrow> None | Some (expansionsS, r7) \<Rightarrow>
        Some (setTs ts (Set_new id' k u attrs)))"

text \<open>\<^verbatim>\<open>SetElement::serialize\<close>: an absent order is written as 0.\<close>

definition SetElement_serialize :: "SetElement \<Rightarrow> string \<Rightarrow> bool \<times> string" where
  "SetElement_serialize el d =
     (let r1 = serializehandle (mSetId el) d;
          r2 = serializehandle (mId el) r1;
          r3 = serializenodehandle (mNodeHandle el) r2;
          r4 = serializei64 (case mOrder el of Some ord \<Rightarrow> ord | None \<Rightarrow> 0) r3;
          r5 = serializecompressed64 (mTs el) r4;
          r6 = serializestring (mKey el) r5;
          asize = (case mAttrs el of Some m \<Rightarrow> length m | None \<Rightarrow> 0);
          r7 = serializeu32 (word_of_nat asize) r6;
          r8 = (case mAttrs el of
                  Some m \<Rightarrow> if asize \<noteq> 0 then serialize_attrs m r7 else r7
                | None \<Rightarrow> r7);
          r9 = serializeexpansionflags r8
      in (True, r9))"

text \<open>\<^verbatim>\<open>SetElement::unserialize\<close>.\<close>

definition SetElement_unserialize :: "string \<Rightarrow> SetElement option" where
  "SetElement_unserialize d =
     (case unserializehandle d of None \<Rightarrow> None | Some (sid, r1) \<Rightarrow>
      case unserializehandle r1 of None \<Rightarrow> None | Some (eid, r2) \<Rightarrow>
      case unserializenodehandle r2 of None \<Rightarrow> None | Some (h, r3) \<Rightarrow>
      case unserializei64 r3 of None \<Rightarrow> None | Some (ord, r4) \<Rightarrow>
      case unserializecompressed64 r4 of None \<Rightarrow> None | Some (ts, r5) \<Rightarrow>
      case unserializestring r5 of None \<Rightarrow> None | Some (k, r6) \<Rightarrow>
      case unserializeu32 r6 of None \<Rightarrow> None | Some (attrCount, r7) \<Rightarrow>
      case unserialize_attrs (unat attrCount) [] r7 of None \<Rightarrow> None | Some (attrs, r8) \<Rightarrow>
      case unserializeexpansionflags r8 0 of None \<Rightarrow> None | Some (expansionsE, r9) \<Rightarrow>
        Some (setTs ts (SetElement_setOrder ord (SetElement_new sid h eid k attrs))))"

section \<open>Notions used to state the properties\<close>

text \<open>The attribute map a reader sees: an absent map reads as the empty one.\<close>

definition attrs_or_empty :: "'a CommonSE_scheme \<Rightarrow> string_map" where
  "attrs_or_empty s = (case mAttrs s of None \<Rightarrow> [] | Some m \<Rightarrow> m)"

text \<open>
  The effective dictionary of a rebase in the words of the spec, on maps as partial
  functions: a local tag with a non-empty value overrides the base, a local tag
  with an empty value is removed, a tag the local map does not hold inherits the
  value of the base.
\<close>

definition spec_rebase :: "(string \<rightharpoonup> string) \<Rightarrow> (string \<rightharpoonup> string) \<Rightarrow> (string \<rightharpoonup> string)" where
  "spec_rebase l b = (\<lambda>k. case l k of None \<Rightarrow> b k | Some v \<Rightarrow> if v = [] then None else Some v)"

text \<open>
  What the cache format can hold: the attribute map is a well-formed map, the key and
  every attribute tag and value are shorter than \<open>2 ^ 16\<close> bytes, and there are
  fewer than \<open>2 ^ 32\<close> attributes.
\<close>

definition fits_wire :: "'a CommonSE_scheme \<Rightarrow> bool" where
  "fits_wire s \<longleftrightarrow>
     wf_map (attrs_or_empty s)
     \<and> length (mKey s) < 65536
     \<and> length (attrs_or_empty s) < 2 ^ 32
     \<and> (\<forall>(k, v) \<in> set (attrs_or_empty s). length k < 65536 \<and> length v < 65536)"

text \<open>
  A reader is framed when a successful read depends on, and consumes, exactly a prefix
  \<open>p\<close> of its input: it gives the same value on \<open>p\<close> followed by anything, and
  fails on every proper prefix of \<open>p\<close>. \<open>framed_val\<close> is the same for a decoder
  that returns the value only.
\<close>

definition framed :: "(string \<Rightarrow> ('a \<times> string) option) \<Rightarrow> bool" where
  "framed R \<longleftrightarrow>
     (\<forall>d v r. R d = Some (v, r) \<longrightarrow>
        (\<exists>p. d = p @ r \<and> (\<forall>r'. R (p @ r') = Some (v, r'))
             \<and> (\<forall>m<length p. R (take m p) = None)))"

definition framed_val :: "(string \<Rightarrow> 'a option) \<Rightarrow> bool" where
  "framed_val P \<longleftrightarrow>
     (\<forall>d v. P d = Some v \<longrightarrow>
        (\<exists>n\<le>length d. (\<forall>r'. P (take n d @ r') = Some v) \<and> (\<forall>m<n. P (take m d) = None)))"

section \<open>Decrypting attributes\<close>

text \<open>
  C4: when the entity holds a non-empty encrypted blob and the callback reports
  failure, \<open>decryptAttributes\<close> returns false and the entity, its blob and its
  attribute map included, is the one it was before the call.
\<close>

theorem decryptAttributes_failure_inert:
  assumes "mEncryptedAttrs s = Some blob" and "blob \<noteq> []"
    and "\<not> fst (f blob (mKey s) [] w)"
  shows "\<not> fst (decryptAttributes f s w) \<and> fst (snd (decryptAttributes f s w)) = s"
  using assms by (cases "f blob (mKey s) [] w") (simp add: decryptAttributes_def)

theorem decryptAttributes_failure_inert_witness:
  "\<not> fst (decryptAttributes (\<lambda>b k m w. (False, [(''n'', b)], Suc w))
        \<lparr>mId = 1, mKey = ''k'', mAttrs = None, mTs = 0, mEncryptedAttrs = Some ''xy''\<rparr> (0::nat))
   \<and> fst (snd (decryptAttributes (\<lambda>b k m w. (False, [(''n'', b)], Suc w))
        \<lparr>mId = 1, mKey = ''k'', mAttrs = None, mTs = 0, mEncryptedAttrs = Some ''xy''\<rparr> (0::nat)))
     = \<lparr>mId = 1, mKey = ''k'', mAttrs = None, mTs = 0, mEncryptedAttrs = Some ''xy''\<rparr>"
  using decryptAttributes_failure_inert
    [of "\<lparr>mId = 1, mKey = ''k'', mAttrs = None, mTs = 0, mEncryptedAttrs = Some ''xy''\<rparr>"
        "''xy''" "\<lambda>b k m w. (False, [(''n'', b)], Suc w)" "0::nat"]
  by simp

text \<open>
  C9: when the encrypted blob is present and empty, \<open>decryptAttributes\<close> returns true,
  the attribute map is present and empty afterwards and the blob is gone; the
  callback is not run: whatever the callback is, the caller's state \<open>w\<close> comes back
  as it was.
\<close>

theorem decryptAttributes_empty_blob:
  assumes "mEncryptedAttrs s = Some []"
  shows "decryptAttributes f s w = (True, s\<lparr>mAttrs := Some [], mEncryptedAttrs := None\<rparr>, w)"
  using assms by (simp add: decryptAttributes_def)

theorem decryptAttributes_empty_blob_witness:
  "decryptAttributes (\<lambda>b k m w. (False, m, Suc w))
     \<lparr>mId = 1, mKey = ''k'', mAttrs = None, mTs = 0, mEncryptedAttrs = Some []\<rparr> (0::nat)
   = (True, \<lparr>mId = 1, mKey = ''k'', mAttrs = Some [], mTs = 0, mEncryptedAttrs = None\<rparr>, 0)"
  using decryptAttributes_empty_blob
    [of "\<lparr>mId = 1, mKey = ''k'', mAttrs = None, mTs = 0, mEncryptedAttrs = Some []\<rparr>"
        "\<lambda>b k m w. (False, m, Suc w)" "0::nat"]
  by simp

section \<open>Merging\<close>

text \<open>
  C6: after \<open>Set_updateWith this s\<close> the timestamp of the local set is the timestamp
  of \<open>s\<close>, whatever it was before, and the id, the owner and the key of the local set
  are the ones it had before the call.
\<close>

theorem Set_updateWith_frame:
  "mTs (snd (Set_updateWith this s)) = mTs s
   \<and> mId (snd (Set_updateWith this s)) = mId this
   \<and> mUser (snd (Set_updateWith this s)) = mUser this
   \<and> mKey (snd (Set_updateWith this s)) = mKey this"
  by (simp add: Set_updateWith_def Let_def setTs_def Set_setChanged_def)




text \<open>
  C8: on an element with no order, \<open>SetElement_setOrder v\<close> installs \<open>v\<close> (also
  \<open>v = 0\<close>) and sets the order-change bit; on an element whose order is set,
  a different value is stored and the bit is set, and the same value changes
  nothing: the element, its change bits included, is the one it was.
\<close>

theorem SetElement_setOrder_cases:
  "(mOrder el = None \<longrightarrow>
      SetElement_setOrder v el
        = el\<lparr>mOrder := Some v, mChangesEl := set_bit CH_EL_ORDER (mChangesEl el)\<rparr>
      \<and> bit (mChangesEl (SetElement_setOrder v el)) CH_EL_ORDER)
   \<and> (\<forall>cur. mOrder el = Some cur \<and> cur \<noteq> v \<longrightarrow>
      SetElement_setOrder v el
        = el\<lparr>mOrder := Some v, mChangesEl := set_bit CH_EL_ORDER (mChangesEl el)\<rparr>
      \<and> bit (mChangesEl (SetElement_setOrder v el)) CH_EL_ORDER)
   \<and> (mOrder el = Some v \<longrightarrow> SetElement_setOrder v el = el)"
  by (simp add: SetElement_setOrder_def SetElement_setChanged_def bit_simps)

theorem SetElement_setOrder_cases_witness:
  "SetElement_setOrder 0
       \<lparr>mId = 1, mKey = ''k'', mAttrs = None, mTs = 5, mEncryptedAttrs = None,
        mSetId = 2, mNodeHandle = 3, mOrder = None, mAttrsClearedByLastUpdate = False,
        mChangesEl = 0\<rparr>
     = \<lparr>mId = 1, mKey = ''k'', mAttrs = None, mTs = 5, mEncryptedAttrs = None,
        mSetId = 2, mNodeHandle = 3, mOrder = Some 0, mAttrsClearedByLastUpdate = False,
        mChangesEl = 4\<rparr>
   \<and> SetElement_setOrder 9
       \<lparr>mId = 1, mKey = ''k'', mAttrs = None, mTs = 5, mEncryptedAttrs = None,
        mSetId = 2, mNodeHandle = 3, mOrder = Some 7, mAttrsClearedByLastUpdate = False,
        mChangesEl = 0\<rparr>
     = \<lparr>mId = 1, mKey = ''k'', mAttrs = None, mTs = 5, mEncryptedAttrs = None,
        mSetId = 2, mNodeHandle = 3, mOrder = Some 9, mAttrsClearedByLastUpdate = False,
        mChangesEl = 4\<rparr>
   \<and> SetElement_setOrder 7
       \<lparr>mId = 1, mKey = ''k'', mAttrs = None, mTs = 5, mEncryptedAttrs = None,
        mSetId = 2, mNodeHandle = 3, mOrder = Some 7, mAttrsClearedByLastUpdate = False,
        mChangesEl = 0\<rparr>
     = \<lparr>mId = 1, mKey = ''k'', mAttrs = None, mTs = 5, mEncryptedAttrs = None,
        mSetId = 2, mNodeHandle = 3, mOrder = Some 7, mAttrsClearedByLastUpdate = False,
        mChangesEl = 0\<rparr>"
  using SetElement_setOrder_cases
    [of "\<lparr>mId = 1, mKey = ''k'', mAttrs = None, mTs = 5, mEncryptedAttrs = None,
          mSetId = 2, mNodeHandle = 3, mOrder = None, mAttrsClearedByLastUpdate = False,
          mChangesEl = 0\<rparr>" 0]
    SetElement_setOrder_cases
    [of "\<lparr>mId = 1, mKey = ''k'', mAttrs = None, mTs = 5, mEncryptedAttrs = None,
          mSetId = 2, mNodeHandle = 3, mOrder = Some 7, mAttrsClearedByLastUpdate = False,
          mChangesEl = 0\<rparr>" 9]
    SetElement_setOrder_cases
    [of "\<lparr>mId = 1, mKey = ''k'', mAttrs = None, mTs = 5, mEncryptedAttrs = None,
          mSetId = 2, mNodeHandle = 3, mOrder = Some 7, mAttrsClearedByLastUpdate = False,
          mChangesEl = 0\<rparr>" 7]
  by (simp add: CH_EL_ORDER_def)

section \<open>Attribute maps\<close>


lemma map_find_map_of: "map_find m k = map_of m k"
  by (induction m) auto

lemma wf_map_Cons: "wf_map ((k, v) # m) \<longleftrightarrow> (\<forall>k'\<in>fst ` set m. k < k') \<and> wf_map m"
  by (auto simp: wf_map_def)

lemma wf_map_Nil: "wf_map []"
  by (simp add: wf_map_def)

lemma wf_map_distinct: "wf_map m \<Longrightarrow> distinct (map fst m)"
  unfolding wf_map_def by (simp add: strict_sorted_iff)

lemma wf_map_sorted: "wf_map m \<Longrightarrow> sorted (map fst m)"
  unfolding wf_map_def by (simp add: strict_sorted_iff)

lemma keys_map_assign: "fst ` set (map_assign m k v) = insert k (fst ` set m)"
proof (induction m)
  case Nil
  then show ?case by simp
next
  case (Cons e m)
  obtain k' v' where e: "e = (k', v')" by (cases e)
  show ?case using Cons.IH by (simp add: e insert_commute)
qed

lemma wf_map_assign: "wf_map m \<Longrightarrow> wf_map (map_assign m k v)"
proof (induction m)
  case Nil
  then show ?case by (simp add: wf_map_def)
next
  case (Cons e m)
  obtain k' v' where e: "e = (k', v')" by (cases e)
  from Cons.prems have lt: "\<forall>x\<in>fst ` set m. k' < x" and wf: "wf_map m"
    by (simp_all add: e wf_map_Cons)
  show ?case
  proof (cases "k < k'")
    case True
    with lt wf show ?thesis
      by (auto simp: e wf_map_Cons)
  next
    case False
    show ?thesis
    proof (cases "k = k'")
      case True
      with lt wf show ?thesis by (simp add: e wf_map_Cons)
    next
      case neq: False
      with False have "k' < k" by simp
      with lt Cons.IH [OF wf] False neq show ?thesis
        by (simp add: e wf_map_Cons keys_map_assign)
    qed
  qed
qed

lemma map_of_map_assign: "map_of (map_assign m k v) = (map_of m)(k \<mapsto> v)"
  by (induction m) (auto simp: fun_eq_iff)

lemma keys_map_erase: "fst ` set (map_erase m k) \<subseteq> fst ` set m"
proof (induction m)
  case Nil
  then show ?case by simp
next
  case (Cons e m)
  obtain k' v' where e: "e = (k', v')" by (cases e)
  show ?case using Cons.IH by (auto simp: e)
qed

lemma wf_map_erase: "wf_map m \<Longrightarrow> wf_map (map_erase m k)"
proof (induction m)
  case Nil
  then show ?case by simp
next
  case (Cons e m)
  obtain k' v' where e: "e = (k', v')" by (cases e)
  from Cons.prems have lt: "\<forall>x\<in>fst ` set m. k' < x" and wf: "wf_map m"
    by (simp_all add: e wf_map_Cons)
  from lt keys_map_erase [of m k] have "\<forall>x\<in>fst ` set (map_erase m k). k' < x"
    by blast
  with Cons.IH [OF wf] wf show ?case
    by (simp add: e wf_map_Cons)
qed

lemma map_of_map_erase: "wf_map m \<Longrightarrow> map_of (map_erase m k) = (map_of m)(k := None)"
proof (induction m)
  case Nil
  then show ?case by simp
next
  case (Cons e m)
  obtain k' v' where e: "e = (k', v')" by (cases e)
  from Cons.prems have lt: "\<forall>x\<in>fst ` set m. k' < x" and wf: "wf_map m"
    by (simp_all add: e wf_map_Cons)
  have "k' \<notin> fst ` set m" using lt by auto
  then have "map_of m k' = None" by (simp add: map_of_eq_None_iff)
  with Cons.IH [OF wf] show ?case
    by (auto simp: e fun_eq_iff)
qed

lemma wf_map_eqI:
  assumes "wf_map a" and "wf_map b" and "map_of a = map_of b"
  shows "a = b"
proof -
  have da: "distinct (map fst a)" and db: "distinct (map fst b)"
    using assms by (simp_all add: wf_map_distinct)
  then have seteq: "set a = set b"
    using assms(3) by (simp add: map_of_inject_set)
  have "inj_on fst (set a)"
    using da by (simp add: distinct_map)
  then have "inj_on fst (set a \<union> set b)" using seteq by simp
  then show ?thesis
    using assms(1,2) da db seteq
    by (intro map_sorted_distinct_set_unique [of fst]) (simp_all add: wf_map_sorted)
qed

lemma wf_rebase_loop: "wf_map r \<Longrightarrow> wf_map (rebase_loop as r)"
  by (induction as r rule: rebase_loop.induct) (simp_all add: wf_map_assign wf_map_erase)

lemma map_of_rebase_loop:
  "wf_map as \<Longrightarrow> wf_map r \<Longrightarrow> map_of (rebase_loop as r) = spec_rebase (map_of as) (map_of r)"
proof (induction as r rule: rebase_loop.induct)
  case (1 rebased)
  then show ?case by (simp add: spec_rebase_def)
next
  case (2 k v as rebased)
  from "2.prems" have lt: "\<forall>x\<in>fst ` set as. k < x" and wf: "wf_map as"
    by (simp_all add: wf_map_Cons)
  have nk: "map_of as k = None" using lt by (auto simp: map_of_eq_None_iff)
  let ?r = "if v = [] then map_erase rebased k else map_assign rebased k v"
  have wfr: "wf_map ?r" using "2.prems"(2) by (simp add: wf_map_assign wf_map_erase)
  have "map_of (rebase_loop as ?r) = spec_rebase (map_of as) (map_of ?r)"
    using "2.IH" [OF wf wfr] .
  then show ?case
    using nk "2.prems"(2)
    by (auto simp: spec_rebase_def fun_eq_iff map_of_map_assign map_of_map_erase split: option.splits)
qed



lemma attrs_or_empty_rebase:
  "attrs_or_empty (rebaseCommonAttrsOn (Some base) s)
     = (if attrs_or_empty s = [] then base else rebase_loop (attrs_or_empty s) base)"
  by (simp add: rebaseCommonAttrsOn_def attrs_or_empty_def Let_def)

lemma rebase_as_update:
  "rebaseCommonAttrsOn (Some base) s
     = s\<lparr>mAttrs := (let a = attrs_or_empty (rebaseCommonAttrsOn (Some base) s)
                    in if a = [] then None else Some a)\<rparr>"
  by (simp add: rebaseCommonAttrsOn_def attrs_or_empty_def Let_def)

lemma wf_rebased:
  assumes "wf_map base" and "wf_map (attrs_or_empty s)"
  shows "wf_map (attrs_or_empty (rebaseCommonAttrsOn (Some base) s))"
  using assms by (simp add: attrs_or_empty_rebase wf_rebase_loop)

lemma map_of_rebased:
  assumes "wf_map base" and "wf_map (attrs_or_empty s)"
  shows "map_of (attrs_or_empty (rebaseCommonAttrsOn (Some base) s))
           = spec_rebase (map_of (attrs_or_empty s)) (map_of base)"
proof (cases "attrs_or_empty s = []")
  case True
  then show ?thesis by (simp add: attrs_or_empty_rebase spec_rebase_def)
next
  case False
  then show ?thesis using assms by (simp add: attrs_or_empty_rebase map_of_rebase_loop)
qed

lemma rebase_again_iff_attrs:
  "rebaseCommonAttrsOn (Some base) (rebaseCommonAttrsOn (Some base) s)
       = rebaseCommonAttrsOn (Some base) s
   \<longleftrightarrow> attrs_or_empty (rebaseCommonAttrsOn (Some base) (rebaseCommonAttrsOn (Some base) s))
       = attrs_or_empty (rebaseCommonAttrsOn (Some base) s)"
  (is "?l \<longleftrightarrow> ?r")
proof
  assume ?l then show ?r by simp
next
  assume r: ?r
  have "rebaseCommonAttrsOn (Some base) (rebaseCommonAttrsOn (Some base) s)
      = (rebaseCommonAttrsOn (Some base) s)
          \<lparr>mAttrs := (let a = attrs_or_empty (rebaseCommonAttrsOn (Some base) s)
                    in if a = [] then None else Some a)\<rparr>"
    using rebase_as_update [of base "rebaseCommonAttrsOn (Some base) s"] r by simp
  also have "\<dots> = rebaseCommonAttrsOn (Some base) s"
    by (simp add: rebaseCommonAttrsOn_def attrs_or_empty_def Let_def)
  finally show ?l .
qed

lemma spec_rebase_fixed_iff:
  "spec_rebase (spec_rebase l b) b = spec_rebase l b
   \<longleftrightarrow> (\<forall>k bv. b k = Some bv \<longrightarrow> (case l k of Some v \<Rightarrow> v \<noteq> [] | None \<Rightarrow> bv \<noteq> []))"
  (is "?l \<longleftrightarrow> ?r")
proof
  assume l: ?l
  show ?r
  proof (intro allI impI)
    fix k bv assume b: "b k = Some bv"
    from l have eq: "spec_rebase (spec_rebase l b) b k = spec_rebase l b k" by simp
    show "case l k of Some v \<Rightarrow> v \<noteq> [] | None \<Rightarrow> bv \<noteq> []"
      using eq b by (auto simp: spec_rebase_def split: option.splits if_splits)
  qed
next
  assume r: ?r
  show ?l
  proof
    fix k
    show "spec_rebase (spec_rebase l b) b k = spec_rebase l b k"
    proof (cases "b k")
      case None
      then show ?thesis by (auto simp: spec_rebase_def split: option.splits)
    next
      case (Some bv)
      with r have "case l k of Some v \<Rightarrow> v \<noteq> [] | None \<Rightarrow> bv \<noteq> []" by blast
      with Some show ?thesis by (auto simp: spec_rebase_def split: option.splits)
    qed
  qed
qed

lemma in_set_map_of: "wf_map m \<Longrightarrow> (k, v) \<in> set m \<longleftrightarrow> map_of m k = Some v"
  by (auto dest: wf_map_distinct map_of_SomeD)

text \<open>A rebase on an absent base is a no-op, so repeating it changes nothing.\<close>

lemma rebase_absent_base:
  "rebaseCommonAttrsOn None (rebaseCommonAttrsOn None s) = rebaseCommonAttrsOn None s"
  by (simp add: rebaseCommonAttrsOn_def)

text \<open>
  C3 (amended): rebasing twice on the same base gives the store that rebasing once
  gives exactly when every tag of the base resolves to a non-empty value: the
  value the store holds for the tag if it holds the tag, the value of the base
  otherwise. A store with an empty-valued tag that the base defines, and a base
  with an empty value that the store does not override, are the cases where the
  second rebase changes the store again.
\<close>

theorem rebase_twice:
  assumes "wf_map base" and "wf_map (attrs_or_empty s)"
  shows "rebaseCommonAttrsOn (Some base) (rebaseCommonAttrsOn (Some base) s)
           = rebaseCommonAttrsOn (Some base) s
         \<longleftrightarrow> (\<forall>(k, bv) \<in> set base.
               case map_find (attrs_or_empty s) k of Some v \<Rightarrow> v \<noteq> [] | None \<Rightarrow> bv \<noteq> [])"
proof -
  let ?s1 = "rebaseCommonAttrsOn (Some base) s"
  let ?s2 = "rebaseCommonAttrsOn (Some base) ?s1"
  have wf1: "wf_map (attrs_or_empty ?s1)" using assms by (rule wf_rebased)
  have wf2: "wf_map (attrs_or_empty ?s2)" using assms(1) wf1 by (rule wf_rebased)
  have m1: "map_of (attrs_or_empty ?s1) = spec_rebase (map_of (attrs_or_empty s)) (map_of base)"
    using assms by (rule map_of_rebased)
  have m2: "map_of (attrs_or_empty ?s2)
              = spec_rebase (spec_rebase (map_of (attrs_or_empty s)) (map_of base)) (map_of base)"
    using map_of_rebased [OF assms(1) wf1] m1 by simp
  have "?s2 = ?s1 \<longleftrightarrow> attrs_or_empty ?s2 = attrs_or_empty ?s1"
    by (rule rebase_again_iff_attrs)
  also have "\<dots> \<longleftrightarrow> map_of (attrs_or_empty ?s2) = map_of (attrs_or_empty ?s1)"
    using wf_map_eqI [OF wf2 wf1] by auto
  also have "\<dots> \<longleftrightarrow> (\<forall>k bv. map_of base k = Some bv \<longrightarrow>
       (case map_of (attrs_or_empty s) k of Some v \<Rightarrow> v \<noteq> [] | None \<Rightarrow> bv \<noteq> []))"
    unfolding m1 m2 by (rule spec_rebase_fixed_iff)
  also have "\<dots> \<longleftrightarrow> (\<forall>(k, bv) \<in> set base.
       case map_find (attrs_or_empty s) k of Some v \<Rightarrow> v \<noteq> [] | None \<Rightarrow> bv \<noteq> [])"
    by (simp add: map_find_map_of Ball_def in_set_map_of [OF assms(1)])
  finally show ?thesis .
qed

text \<open>
  C3 as stated fails: the store \<open>{n: ""}\<close> rebased on \<open>{c: y, n: x}\<close> is
  \<open>{c: y}\<close>; the deletion mark is gone, so the second rebase inherits \<open>n\<close>
  again and gives \<open>{c: y, n: x}\<close>.
\<close>

theorem rebase_twice_counterexample:
  "rebaseCommonAttrsOn (Some [(''c'', ''y''), (''n'', ''x'')])
     (rebaseCommonAttrsOn (Some [(''c'', ''y''), (''n'', ''x'')])
        \<lparr>mId = 1, mKey = ''k'', mAttrs = Some [(''n'', '''')], mTs = 0, mEncryptedAttrs = None\<rparr>)
   \<noteq> rebaseCommonAttrsOn (Some [(''c'', ''y''), (''n'', ''x'')])
        \<lparr>mId = 1, mKey = ''k'', mAttrs = Some [(''n'', '''')], mTs = 0, mEncryptedAttrs = None\<rparr>"
  by (simp add: rebaseCommonAttrsOn_def)

theorem rebase_twice_witness:
  "rebaseCommonAttrsOn (Some [(''c'', ''y''), (''n'', ''x'')])
     (rebaseCommonAttrsOn (Some [(''c'', ''y''), (''n'', ''x'')])
        \<lparr>mId = 1, mKey = ''k'', mAttrs = Some [(''n'', ''A'')], mTs = 0, mEncryptedAttrs = None\<rparr>)
   = rebaseCommonAttrsOn (Some [(''c'', ''y''), (''n'', ''x'')])
        \<lparr>mId = 1, mKey = ''k'', mAttrs = Some [(''n'', ''A'')], mTs = 0, mEncryptedAttrs = None\<rparr>"
  using rebase_twice [of "[(''c'', ''y''), (''n'', ''x'')]"
     "\<lparr>mId = 1, mKey = ''k'', mAttrs = Some [(''n'', ''A'')], mTs = 0, mEncryptedAttrs = None\<rparr>"]
  by (simp add: wf_map_def attrs_or_empty_def)

section \<open>The cache format: readers invert writers\<close>

lemma of_char_lt_256: "(of_char c :: nat) < 256"
  by (cases c) simp

lemma length_le_bytes [simp]: "length (le_bytes n v) = n"
  by (induction n arbitrary: v) simp_all

lemma le_val_le_bytes: "le_val (le_bytes n v) = v mod 256 ^ n"
proof (induction n arbitrary: v)
  case 0
  then show ?case by simp
next
  case (Suc n)
  have "v mod 256 + 256 * (v div 256 mod 256 ^ n) = v mod (256 * 256 ^ n)"
    by (simp add: mod_mult2_eq)
  then show ?case using Suc by simp
qed

lemma le_val_bound: "le_val bs < 256 ^ length bs"
proof (induction bs)
  case Nil
  then show ?case by simp
next
  case (Cons c cs)
  have "of_char c + 256 * le_val cs < 256 + 256 * le_val cs"
    using of_char_lt_256 [of c] by simp
  also have "\<dots> = 256 * (le_val cs + 1)" by simp
  also have "\<dots> \<le> 256 * 256 ^ length cs"
    using Cons.IH by (intro mult_le_mono2) simp
  finally show ?case by simp
qed

lemma word64_of_le_bytes: "word_of_nat (le_val (le_bytes 8 (unat (w :: 64 word)))) = w"
proof -
  have "unat w < 256 ^ 8" using unsigned_less [of w] by simp
  then show ?thesis by (simp add: le_val_le_bytes)
qed

lemma word32_of_le_bytes: "word_of_nat (le_val (le_bytes 4 (unat (w :: 32 word)))) = w"
proof -
  have "unat w < 256 ^ 4" using unsigned_less [of w] by simp
  then show ?thesis by (simp add: le_val_le_bytes)
qed

lemma unserializehandle_inverse:
  "unserializehandle (le_bytes 8 (unat h) @ rest) = Some (h, rest)"
  by (simp add: unserializehandle_def word64_of_le_bytes)

lemma unserializei64_inverse:
  "unserializei64 (le_bytes 8 (unat v) @ rest) = Some (v, rest)"
  by (simp add: unserializei64_def word64_of_le_bytes)

lemma unserializeu32_inverse:
  "unserializeu32 (le_bytes 4 (unat v) @ rest) = Some (v, rest)"
  by (simp add: unserializeu32_def word32_of_le_bytes)

lemma unserializenodehandle_inverse:
  assumes "unat h < 2 ^ (8 * NODEHANDLE)"
  shows "unserializenodehandle (le_bytes NODEHANDLE (unat h) @ rest) = Some (h, rest)"
proof -
  have "unat h < 256 ^ 6" using assms by (simp add: NODEHANDLE_def)
  then show ?thesis by (simp add: unserializenodehandle_def le_val_le_bytes NODEHANDLE_def)
qed

lemma unserializestring_inverse:
  assumes "length s < 65536"
  shows "unserializestring (le_bytes 2 (length s) @ s @ rest) = Some (s, rest)"
  using assms by (simp add: unserializestring_def le_val_le_bytes)

lemma unserializeexpansionflags_inverse:
  "unserializeexpansionflags (replicate 8 c @ rest) n = Some (replicate 8 c, rest)"
  by (simp add: unserializeexpansionflags_def)

lemma le_val_Serialize64_bytes: "le_val (Serialize64_bytes v) = v"
proof (induction v rule: Serialize64_bytes.induct)
  case (1 v)
  show ?case
  proof (cases "v = 0")
    case True
    then show ?thesis by (simp add: Serialize64_bytes.simps)
  next
    case False
    with 1 have "le_val (Serialize64_bytes (v div 256)) = v div 256" by simp
    with False show ?thesis
      by (subst Serialize64_bytes.simps) simp
  qed
qed

lemma length_Serialize64_bytes: "v < 256 ^ n \<Longrightarrow> length (Serialize64_bytes v) \<le> n"
proof (induction v arbitrary: n rule: Serialize64_bytes.induct)
  case (1 v)
  show ?case
  proof (cases "v = 0")
    case True
    then show ?thesis by (simp add: Serialize64_bytes.simps)
  next
    case False
    with "1.prems" obtain n' where n: "n = Suc n'" by (cases n) auto
    with "1.prems" have "v div 256 < 256 ^ n'"
      by (simp add: less_mult_imp_div_less)
    with 1 False have "length (Serialize64_bytes (v div 256)) \<le> n'" by simp
    with False n show ?thesis
      by (subst Serialize64_bytes.simps) simp
  qed
qed

lemma unserializecompressed64_inverse:
  "unserializecompressed64 (char_of (length (Serialize64_bytes (unat (v :: 64 word))))
       # Serialize64_bytes (unat v) @ rest) = Some (v, rest)"
proof -
  have "unat v < 256 ^ 8" using unsigned_less [of v] by simp
  then have len: "length (Serialize64_bytes (unat v)) \<le> 8"
    by (rule length_Serialize64_bytes)
  then have "(of_char (char_of (length (Serialize64_bytes (unat v)))) :: nat)
               = length (Serialize64_bytes (unat v))"
    by simp
  with len show ?thesis
    by (simp add: unserializecompressed64_def le_val_Serialize64_bytes)
qed

lemma serializestring_append: "serializestring s d = d @ serializestring s []"
  by (simp add: serializestring_def Let_def)

lemma serialize_attrs_append: "serialize_attrs m d = d @ serialize_attrs m []"
proof (induction m arbitrary: d)
  case Nil
  then show ?case by simp
next
  case (Cons e m)
  obtain k v where e: "e = (k, v)" by (cases e)
  have "serialize_attrs (e # m) d = serializestring v (serializestring k d) @ serialize_attrs m []"
    using Cons.IH [of "serializestring v (serializestring k d)"] by (simp add: e)
  also have "\<dots> = d @ serializestring v (serializestring k []) @ serialize_attrs m []"
    using serializestring_append [of v "serializestring k d"] serializestring_append [of k d]
      serializestring_append [of v "serializestring k []"]
    by simp
  also have "\<dots> = d @ serialize_attrs (e # m) []"
    using Cons.IH [of "serializestring v (serializestring k [])"] by (simp add: e)
  finally show ?case .
qed

lemma unserializestring_serializestring:
  assumes "length s < 65536"
  shows "unserializestring (serializestring s [] @ rest) = Some (s, rest)"
  using assms unserializestring_inverse [of s rest]
  by (simp add: serializestring_def)

lemma unserialize_attrs_inverse:
  assumes "\<forall>(k, v) \<in> set m. length k < 65536 \<and> length v < 65536"
  shows "unserialize_attrs (length m) acc (serialize_attrs m [] @ rest)
           = Some (fold (\<lambda>(k, v) a. map_assign a k v) m acc, rest)"
  using assms
proof (induction m arbitrary: acc)
  case Nil
  then show ?case by simp
next
  case (Cons e m)
  obtain k v where e: "e = (k, v)" by (cases e)
  from Cons.prems have k: "length k < 65536" and v: "length v < 65536"
    and rest: "\<forall>(k, v) \<in> set m. length k < 65536 \<and> length v < 65536"
    by (auto simp: e)
  have ser: "serialize_attrs (e # m) [] @ rest
      = serializestring k [] @ serializestring v [] @ serialize_attrs m [] @ rest"
    using serialize_attrs_append [of m "serializestring v (serializestring k [])"]
      serializestring_append [of v "serializestring k []"]
    by (simp add: e)
  show ?case
    unfolding ser
    using Cons.IH [OF rest, of "map_assign acc k v"]
    by (simp add: e unserializestring_serializestring [OF k] unserializestring_serializestring [OF v])
qed

lemma map_assign_last:
  "\<forall>k'\<in>fst ` set acc. k' < k \<Longrightarrow> map_assign acc k v = acc @ [(k, v)]"
proof (induction acc)
  case Nil
  then show ?case by simp
next
  case (Cons e acc)
  obtain k' v' where e: "e = (k', v')" by (cases e)
  from Cons.prems have "k' < k" by (simp add: e)
  then have "\<not> k < k'" "k \<noteq> k'" by auto
  with Cons show ?case by (simp add: e)
qed

lemma wf_map_append_Cons:
  "wf_map (acc @ (k, v) # m) \<Longrightarrow> (\<forall>k'\<in>fst ` set acc. k' < k) \<and> wf_map ((acc @ [(k, v)]) @ m)"
  by (auto simp: wf_map_def sorted_wrt_append)

lemma fold_map_assign_sorted:
  "wf_map (acc @ m) \<Longrightarrow> fold (\<lambda>(k, v) a. map_assign a k v) m acc = acc @ m"
proof (induction m arbitrary: acc)
  case Nil
  then show ?case by simp
next
  case (Cons e m)
  obtain k v where e: "e = (k, v)" by (cases e)
  from Cons.prems wf_map_append_Cons [of acc k v m]
  have lt: "\<forall>k'\<in>fst ` set acc. k' < k" and wf: "wf_map ((acc @ [(k, v)]) @ m)"
    by (simp_all add: e)
  show ?case
    using Cons.IH [OF wf] map_assign_last [OF lt, of v] by (simp add: e)
qed

lemma unserialize_attrs_roundtrip:
  assumes "wf_map m" and "\<forall>(k, v) \<in> set m. length k < 65536 \<and> length v < 65536"
  shows "unserialize_attrs (length m) [] (serialize_attrs m [] @ rest) = Some (m, rest)"
  using unserialize_attrs_inverse [OF assms(2), of "[]" rest] fold_map_assign_sorted [of "[]" m] assms(1)
  by simp

lemma attrs_size:
  "(case mAttrs s of Some m \<Rightarrow> length m | None \<Rightarrow> 0) = length (attrs_or_empty s)"
  by (simp add: attrs_or_empty_def split: option.splits)

lemma attrs_bytes:
  "(case mAttrs s of
      Some m \<Rightarrow> if length (attrs_or_empty s) \<noteq> 0 then serialize_attrs m d else d
    | None \<Rightarrow> d) = d @ serialize_attrs (attrs_or_empty s) []"
  using serialize_attrs_append [of "attrs_or_empty s" d]
  by (auto simp: attrs_or_empty_def split: option.splits)

lemma unat_attr_count:
  "n < 2 ^ 32 \<Longrightarrow> unat (word_of_nat n :: 32 word) = n"
  by (simp add: unat_of_nat)

lemma unserializeu32_count:
  "n < 2 ^ 32 \<Longrightarrow> unserializeu32 (le_bytes 4 n @ rest) = Some (word_of_nat n, rest)"
  using unserializeu32_inverse [of "word_of_nat n" rest] by (simp add: unat_attr_count)

lemma Set_serialize_bytes:
  "Set_serialize s d =
     (True, d @ le_bytes 8 (unat (mId s)) @ le_bytes 8 (unat (mUser s))
        @ (char_of (length (Serialize64_bytes (unat (mTs s)))) # Serialize64_bytes (unat (mTs s)))
        @ serializestring (mKey s) []
        @ le_bytes 4 (unat (word_of_nat (length (attrs_or_empty s)) :: 32 word))
        @ serialize_attrs (attrs_or_empty s) []
        @ replicate 8 (CHR 0x00))"
  unfolding Set_serialize_def Let_def attrs_size attrs_bytes
  by (simp add: serializehandle_def serializecompressed64_def serializeu32_def
      serializeexpansionflags_def serializestring_def Let_def)

lemma Set_roundtrip:
  assumes "fits_wire s"
  shows "Set_unserialize (snd (Set_serialize s []) @ rest)
           = Some (s\<lparr>mAttrs := Some (attrs_or_empty s), mEncryptedAttrs := None, mChanges := 0\<rparr>)"
proof -
  from assms have wf: "wf_map (attrs_or_empty s)" and key: "length (mKey s) < 65536"
    and cnt: "length (attrs_or_empty s) < 2 ^ 32"
    and strs: "\<forall>(k, v) \<in> set (attrs_or_empty s). length k < 65536 \<and> length v < 65536"
    by (simp_all add: fits_wire_def)
  show ?thesis
    unfolding Set_serialize_bytes Set_unserialize_def
    by (simp add: unserializehandle_inverse unserializecompressed64_inverse
        unserializestring_serializestring [OF key] unserializeu32_count [OF cnt]
        unat_attr_count [OF cnt] unserialize_attrs_roundtrip [OF wf strs]
        unserializeexpansionflags_inverse Set_new_def setTs_def)
qed


lemma SetElement_serialize_bytes:
  "SetElement_serialize el d =
     (True, d @ le_bytes 8 (unat (mSetId el)) @ le_bytes 8 (unat (mId el))
        @ le_bytes NODEHANDLE (unat (mNodeHandle el))
        @ le_bytes 8 (unat (case mOrder el of Some ord \<Rightarrow> ord | None \<Rightarrow> 0))
        @ (char_of (length (Serialize64_bytes (unat (mTs el)))) # Serialize64_bytes (unat (mTs el)))
        @ serializestring (mKey el) []
        @ le_bytes 4 (unat (word_of_nat (length (attrs_or_empty el)) :: 32 word))
        @ serialize_attrs (attrs_or_empty el) []
        @ replicate 8 (CHR 0x00))"
  unfolding SetElement_serialize_def Let_def attrs_size attrs_bytes
  by (simp add: serializehandle_def serializenodehandle_def serializei64_def
      serializecompressed64_def serializeu32_def
      serializeexpansionflags_def serializestring_def Let_def)

lemma SetElement_roundtrip:
  assumes "fits_wire el" and node: "unat (mNodeHandle el) < 2 ^ (8 * NODEHANDLE)"
  shows "SetElement_unserialize (snd (SetElement_serialize el []) @ rest)
           = Some (el\<lparr>mAttrs := Some (attrs_or_empty el), mEncryptedAttrs := None,
                     mOrder := Some (case mOrder el of Some ord \<Rightarrow> ord | None \<Rightarrow> 0),
                     mAttrsClearedByLastUpdate := False,
                     mChangesEl := set_bit CH_EL_ORDER 0\<rparr>)"
proof -
  from assms have wf: "wf_map (attrs_or_empty el)" and key: "length (mKey el) < 65536"
    and cnt: "length (attrs_or_empty el) < 2 ^ 32"
    and strs: "\<forall>(k, v) \<in> set (attrs_or_empty el). length k < 65536 \<and> length v < 65536"
    by (simp_all add: fits_wire_def)
  show ?thesis
    unfolding SetElement_serialize_bytes SetElement_unserialize_def
    by (simp add: unserializehandle_inverse unserializenodehandle_inverse [OF node]
        unserializei64_inverse unserializecompressed64_inverse
        unserializestring_serializestring [OF key] unserializeu32_count [OF cnt]
        unat_attr_count [OF cnt] unserialize_attrs_roundtrip [OF wf strs]
        unserializeexpansionflags_inverse SetElement_new_def setTs_def
        SetElement_setOrder_def SetElement_setChanged_def)
qed

lemma le_bytes_numeral:
  "le_bytes (numeral k) v = char_of (v mod 256) # le_bytes (pred_numeral k) (v div 256)"
  by (simp only: numeral_eq_Suc [of k] le_bytes.simps)

lemma Serialize64_bytes_0: "Serialize64_bytes 0 = []"
  by (simp add: Serialize64_bytes.simps)

lemma Serialize64_bytes_numeral:
  "Serialize64_bytes (numeral k)
     = char_of (numeral k mod 256 :: nat) # Serialize64_bytes (numeral k div 256)"
  by (subst Serialize64_bytes.simps) simp


section \<open>The cache format: framing\<close>

lemma framedI:
  assumes "\<And>d v r. R d = Some (v, r) \<Longrightarrow>
     \<exists>p. d = p @ r \<and> (\<forall>r'. R (p @ r') = Some (v, r')) \<and> (\<forall>m<length p. R (take m p) = None)"
  shows "framed R"
  using assms unfolding framed_def by blast

lemma framedD:
  assumes "framed R" and "R d = Some (v, r)"
  shows "\<exists>p. d = p @ r \<and> (\<forall>r'. R (p @ r') = Some (v, r'))
             \<and> (\<forall>m<length p. R (take m p) = None)"
  using assms unfolding framed_def by blast

lemma framed_bind:
  assumes R: "framed R" and K: "\<And>v. framed (K v)"
  shows "framed (\<lambda>d. case R d of None \<Rightarrow> None | Some (v, r) \<Rightarrow> K v r)"
proof (rule framedI)
  fix d w r2
  assume "(case R d of None \<Rightarrow> None | Some (v, r) \<Rightarrow> K v r) = Some (w, r2)"
  then obtain v r where Rd: "R d = Some (v, r)" and Kr: "K v r = Some (w, r2)"
    by (auto split: option.splits)
  from framedD [OF R Rd] obtain p where d: "d = p @ r"
    and Rp: "\<And>r'. R (p @ r') = Some (v, r')"
    and Rt: "\<And>m. m < length p \<Longrightarrow> R (take m p) = None"
    by blast
  from framedD [OF K Kr] obtain q where r: "r = q @ r2"
    and Kq: "\<And>r'. K v (q @ r') = Some (w, r')"
    and Kt: "\<And>m. m < length q \<Longrightarrow> K v (take m q) = None"
    by blast
  have "\<forall>m<length (p @ q). (case R (take m (p @ q)) of None \<Rightarrow> None | Some (v, r) \<Rightarrow> K v r) = None"
  proof (intro allI impI)
    fix m assume m: "m < length (p @ q)"
    show "(case R (take m (p @ q)) of None \<Rightarrow> None | Some (v, r) \<Rightarrow> K v r) = None"
    proof (cases "m < length p")
      case True
      then show ?thesis using Rt [of m] by simp
    next
      case False
      then have "take m (p @ q) = p @ take (m - length p) q" by simp
      moreover have "m - length p < length q" using m False by simp
      ultimately show ?thesis using Rp Kt by simp
    qed
  qed
  moreover have "\<forall>r'. (case R ((p @ q) @ r') of None \<Rightarrow> None | Some (v, r) \<Rightarrow> K v r) = Some (w, r')"
    using Rp Kq by simp
  moreover have "d = (p @ q) @ r2" using d r by simp
  ultimately show "\<exists>pa. d = pa @ r2
      \<and> (\<forall>r'. (case R (pa @ r') of None \<Rightarrow> None | Some (v, r) \<Rightarrow> K v r) = Some (w, r'))
      \<and> (\<forall>m<length pa. (case R (take m pa) of None \<Rightarrow> None | Some (v, r) \<Rightarrow> K v r) = None)"
    by blast
qed

lemma framed_val_bind:
  assumes R: "framed R" and K: "\<And>v. framed_val (K v)"
  shows "framed_val (\<lambda>d. case R d of None \<Rightarrow> None | Some (v, r) \<Rightarrow> K v r)"
  unfolding framed_val_def
proof (intro allI impI)
  fix d w
  assume "(case R d of None \<Rightarrow> None | Some (v, r) \<Rightarrow> K v r) = Some w"
  then obtain v r where Rd: "R d = Some (v, r)" and Kr: "K v r = Some w"
    by (auto split: option.splits)
  from framedD [OF R Rd] obtain p where d: "d = p @ r"
    and Rp: "\<And>r'. R (p @ r') = Some (v, r')"
    and Rt: "\<And>m. m < length p \<Longrightarrow> R (take m p) = None"
    by blast
  from K [of v] Kr obtain n where n: "n \<le> length r"
    and Kn: "\<And>r'. K v (take n r @ r') = Some w"
    and Kt: "\<forall>m<n. K v (take m r) = None"
    unfolding framed_val_def by blast
  let ?B = "\<lambda>d. case R d of None \<Rightarrow> None | Some (v, r) \<Rightarrow> K v r"
  have 1: "length p + n \<le> length d" using d n by simp
  have 2: "\<forall>r'. ?B (take (length p + n) d @ r') = Some w"
    using Rp Kn by (simp add: d)
  have 3: "\<forall>m<length p + n. ?B (take m d) = None"
  proof (intro allI impI)
    fix m assume m: "m < length p + n"
    show "?B (take m d) = None"
    proof (cases "m < length p")
      case True
      then show ?thesis using Rt [of m] by (simp add: d)
    next
      case False
      then have "take m d = p @ take (m - length p) r" by (simp add: d)
      moreover have "m - length p < n" using m False by simp
      ultimately show ?thesis using Rp Kt by simp
    qed
  qed
  from 1 2 3
  show "\<exists>n\<le>length d. (\<forall>r'. ?B (take n d @ r') = Some w) \<and> (\<forall>m<n. ?B (take m d) = None)"
    by blast
qed

lemma framed_val_const: "framed_val (\<lambda>d. Some x)"
  unfolding framed_val_def by auto

lemma framed_return: "framed (\<lambda>d. Some (x, d))"
  by (rule framedI) auto

lemma framed_fixed_width:
  assumes "\<And>d. R d = (if length d < n then None else Some (f (take n d), drop n d))"
  shows "framed R"
proof (rule framedI)
  fix d v r
  assume "R d = Some (v, r)"
  then have len: "\<not> length d < n" and v: "v = f (take n d)" and r: "r = drop n d"
    by (auto simp: assms split: if_splits)
  have "d = take n d @ r" by (simp add: r)
  moreover have "\<forall>r'. R (take n d @ r') = Some (v, r')"
    using len by (simp add: assms v)
  moreover have "\<forall>m<length (take n d). R (take m (take n d)) = None"
    using len by (simp add: assms)
  ultimately show "\<exists>p. d = p @ r \<and> (\<forall>r'. R (p @ r') = Some (v, r'))
      \<and> (\<forall>m<length p. R (take m p) = None)"
    by blast
qed

lemma framed_unserializehandle: "framed unserializehandle"
  by (rule framed_fixed_width [where n = 8 and f = "\<lambda>b. word_of_nat (le_val b)"])
    (simp add: unserializehandle_def)

lemma framed_unserializei64: "framed unserializei64"
  by (rule framed_fixed_width [where n = 8 and f = "\<lambda>b. word_of_nat (le_val b)"])
    (simp add: unserializei64_def)

lemma framed_unserializeu32: "framed unserializeu32"
  by (rule framed_fixed_width [where n = 4 and f = "\<lambda>b. word_of_nat (le_val b)"])
    (simp add: unserializeu32_def)

lemma framed_unserializenodehandle: "framed unserializenodehandle"
  by (rule framed_fixed_width [where n = NODEHANDLE and f = "\<lambda>b. word_of_nat (le_val b)"])
    (simp add: unserializenodehandle_def)

lemma framed_unserializeexpansionflags: "framed (\<lambda>d. unserializeexpansionflags d n)"
  by (rule framed_fixed_width [where n = 8 and f = "\<lambda>b. b"])
    (simp add: unserializeexpansionflags_def)

lemma unserializestring_short:
  "unserializestring [] = None" "unserializestring [a] = None"
  by (simp_all add: unserializestring_def)

lemma unserializestring_Cons2:
  "unserializestring (a # b # xs)
     = (if length xs < le_val [a, b] then None
        else Some (take (le_val [a, b]) xs, drop (le_val [a, b]) xs))"
  by (simp add: unserializestring_def Let_def)

lemma framed_unserializestring: "framed unserializestring"
proof (rule framedI)
  fix d v r
  assume a: "unserializestring d = Some (v, r)"
  then obtain a d1 where d1: "d = a # d1"
    by (cases d) (simp_all add: unserializestring_short)
  with a obtain b xs where "d1 = b # xs"
    by (cases d1) (simp_all add: unserializestring_short)
  with d1 have d: "d = a # b # xs" by simp
  define len where "len = le_val [a, b]"
  from a have ll: "len \<le> length xs" and v: "v = take len xs" and r: "r = drop len xs"
    by (auto simp: unserializestring_Cons2 d len_def simp del: le_val.simps split: if_splits)
  let ?p = "a # b # take len xs"
  have "d = ?p @ r" by (simp add: d r)
  moreover have "\<forall>r'. unserializestring (?p @ r') = Some (v, r')"
    using ll by (simp add: unserializestring_Cons2 v del: le_val.simps flip: len_def)
  moreover have "\<forall>m<length ?p. unserializestring (take m ?p) = None"
  proof (intro allI impI)
    fix m assume m: "m < length ?p"
    show "unserializestring (take m ?p) = None"
    proof (cases m)
      case 0
      then show ?thesis by (simp add: unserializestring_short)
    next
      case (Suc m1)
      show ?thesis
      proof (cases m1)
        case 0
        with Suc show ?thesis by (simp add: unserializestring_short)
      next
        case (Suc m2)
        with \<open>m = Suc m1\<close> m ll have "m2 < len" by simp
        with Suc \<open>m = Suc m1\<close> ll show ?thesis
          by (simp add: unserializestring_Cons2 min_def del: le_val.simps flip: len_def)
      qed
    qed
  qed
  ultimately show "\<exists>p. d = p @ r \<and> (\<forall>r'. unserializestring (p @ r') = Some (v, r'))
      \<and> (\<forall>m<length p. unserializestring (take m p) = None)"
    by blast
qed

lemma framed_unserializecompressed64: "framed unserializecompressed64"
proof (rule framedI)
  fix d v r
  assume a: "unserializecompressed64 d = Some (v, r)"
  then obtain c bs where d: "d = c # bs" by (cases d) (auto simp: unserializecompressed64_def)
  let ?n = "of_char c :: nat"
  from a have n: "?n \<le> length bs" and v: "v = word_of_nat (le_val (take ?n bs))"
    and r: "r = drop ?n bs" and n8: "\<not> 8 < ?n"
    by (auto simp: unserializecompressed64_def d split: if_splits)
  let ?p = "c # take ?n bs"
  have "d = ?p @ r" by (simp add: d r)
  moreover have "\<forall>r'. unserializecompressed64 (?p @ r') = Some (v, r')"
    using n n8 by (simp add: unserializecompressed64_def v)
  moreover have "\<forall>m<length ?p. unserializecompressed64 (take m ?p) = None"
  proof (intro allI impI)
    fix m assume m: "m < length ?p"
    show "unserializecompressed64 (take m ?p) = None"
    proof (cases m)
      case 0
      then show ?thesis by (simp add: unserializecompressed64_def)
    next
      case (Suc m')
      with m n have "m' < ?n" by simp
      with Suc n show ?thesis by (simp add: unserializecompressed64_def min_def)
    qed
  qed
  ultimately show "\<exists>p. d = p @ r \<and> (\<forall>r'. unserializecompressed64 (p @ r') = Some (v, r'))
      \<and> (\<forall>m<length p. unserializecompressed64 (take m p) = None)"
    by blast
qed

lemma framed_unserialize_attrs: "framed (unserialize_attrs n attrs)"
proof (induction n arbitrary: attrs)
  case 0
  have "unserialize_attrs 0 attrs = (\<lambda>d. Some (attrs, d))" by (simp add: fun_eq_iff)
  then show ?case by (simp add: framed_return)
next
  case (Suc n)
  have eq: "unserialize_attrs (Suc n) attrs
      = (\<lambda>d. case unserializestring d of None \<Rightarrow> None
              | Some (ak, d1) \<Rightarrow>
                  (\<lambda>ak d1. case unserializestring d1 of None \<Rightarrow> None
                     | Some (av, d2) \<Rightarrow> unserialize_attrs n (map_assign attrs ak av) d2) ak d1)"
    by (simp add: fun_eq_iff)
  show ?case
    unfolding eq
    by (rule framed_bind [OF framed_unserializestring])
      (rule framed_bind [OF framed_unserializestring], rule Suc.IH)
qed


lemma framed_val_Set_unserialize: "framed_val Set_unserialize"
  unfolding Set_unserialize_def [abs_def]
  by (intro framed_val_bind framed_unserializehandle framed_unserializecompressed64
      framed_unserializestring framed_unserializeu32 framed_unserialize_attrs
      framed_unserializeexpansionflags framed_val_const)

lemma framed_val_SetElement_unserialize: "framed_val SetElement_unserialize"
  unfolding SetElement_unserialize_def [abs_def]
  by (intro framed_val_bind framed_unserializehandle framed_unserializenodehandle
      framed_unserializei64 framed_unserializecompressed64
      framed_unserializestring framed_unserializeu32 framed_unserialize_attrs
      framed_unserializeexpansionflags framed_val_const)

lemma unserializehandle_length:
  "unserializehandle d = Some (v, r) \<Longrightarrow> length d = 8 + length r"
  by (auto simp: unserializehandle_def split: if_splits)

lemma unserializenodehandle_length:
  "unserializenodehandle d = Some (v, r) \<Longrightarrow> length d = NODEHANDLE + length r"
  by (auto simp: unserializenodehandle_def split: if_splits)

lemma unserializei64_length:
  "unserializei64 d = Some (v, r) \<Longrightarrow> length d = 8 + length r"
  by (auto simp: unserializei64_def split: if_splits)

lemma unserializeu32_length:
  "unserializeu32 d = Some (v, r) \<Longrightarrow> length d = 4 + length r"
  by (auto simp: unserializeu32_def split: if_splits)

lemma unserializeexpansionflags_length:
  "unserializeexpansionflags d n = Some (v, r) \<Longrightarrow> length d = 8 + length r"
  by (auto simp: unserializeexpansionflags_def split: if_splits)

lemma unserializestring_length:
  "unserializestring d = Some (v, r) \<Longrightarrow> length d = 2 + length v + length r"
  by (auto simp: unserializestring_def Let_def split: if_splits)

lemma unserializecompressed64_length:
  "unserializecompressed64 d = Some (v, r) \<Longrightarrow> 1 + length r \<le> length d"
  by (cases d) (auto simp: unserializecompressed64_def split: if_splits)

lemma unserialize_attrs_length:
  "unserialize_attrs n acc d = Some (m, r) \<Longrightarrow> 4 * n + length r \<le> length d"
proof (induction n arbitrary: acc d)
  case 0
  then show ?case by simp
next
  case (Suc n)
  from Suc.prems obtain ak d1 av d2 where 1: "unserializestring d = Some (ak, d1)"
    and 2: "unserializestring d1 = Some (av, d2)"
    and 3: "unserialize_attrs n (map_assign acc ak av) d2 = Some (m, r)"
    by (auto split: option.splits)
  from Suc.IH [OF 3] unserializestring_length [OF 1] unserializestring_length [OF 2]
  show ?case by simp
qed

lemma Set_unserialize_count:
  assumes "unserializehandle d = Some (id', r1)" and "unserializehandle r1 = Some (u, r2)"
    and "unserializecompressed64 r2 = Some (ts, r3)" and "unserializestring r3 = Some (k, r4)"
    and "unserializeu32 r4 = Some (c, r5)" and "length r5 < 4 * unat c + 8"
  shows "Set_unserialize d = None"
proof (cases "unserialize_attrs (unat c) [] r5")
  case None
  with assms show ?thesis by (simp add: Set_unserialize_def)
next
  case (Some a)
  obtain attrs r6 where a: "a = (attrs, r6)" by (cases a)
  from unserialize_attrs_length [OF Some [unfolded a]] assms(6) have "length r6 < 8" by simp
  then have "unserializeexpansionflags r6 0 = None" by (simp add: unserializeexpansionflags_def)
  with assms Some a show ?thesis by (simp add: Set_unserialize_def)
qed

lemma SetElement_unserialize_count:
  assumes "unserializehandle d = Some (sid, r1)" and "unserializehandle r1 = Some (eid, r2)"
    and "unserializenodehandle r2 = Some (h, r3)" and "unserializei64 r3 = Some (ord, r4)"
    and "unserializecompressed64 r4 = Some (ts, r5)" and "unserializestring r5 = Some (k, r6)"
    and "unserializeu32 r6 = Some (c, r7)" and "length r7 < 4 * unat c + 8"
  shows "SetElement_unserialize d = None"
proof (cases "unserialize_attrs (unat c) [] r7")
  case None
  with assms show ?thesis by (simp add: SetElement_unserialize_def)
next
  case (Some a)
  obtain attrs r8 where a: "a = (attrs, r8)" by (cases a)
  from unserialize_attrs_length [OF Some [unfolded a]] assms(8) have "length r8 < 8" by simp
  then have "unserializeexpansionflags r8 0 = None" by (simp add: unserializeexpansionflags_def)
  with assms Some a show ?thesis by (simp add: SetElement_unserialize_def)
qed

lemma Set_unserialize_min_length:
  assumes "Set_unserialize d = Some s"
  shows "31 \<le> length d"
proof -
  from assms obtain id' r1 u r2 ts r3 k r4 c r5 attrs r6 e r7
    where "unserializehandle d = Some (id', r1)" and "unserializehandle r1 = Some (u, r2)"
      and "unserializecompressed64 r2 = Some (ts, r3)" and "unserializestring r3 = Some (k, r4)"
      and "unserializeu32 r4 = Some (c, r5)"
      and "unserialize_attrs (unat c) [] r5 = Some (attrs, r6)"
      and "unserializeexpansionflags r6 0 = Some (e, r7)"
    unfolding Set_unserialize_def by (auto split: option.splits)
  then show ?thesis
    using unserializehandle_length [of d id' r1] unserializehandle_length [of r1 u r2]
      unserializecompressed64_length [of r2 ts r3] unserializestring_length [of r3 k r4]
      unserializeu32_length [of r4 c r5] unserialize_attrs_length [of "unat c" "[]" r5 attrs r6]
      unserializeexpansionflags_length [of r6 0 e r7]
    by simp
qed

lemma SetElement_unserialize_min_length:
  assumes "SetElement_unserialize d = Some el"
  shows "39 + NODEHANDLE \<le> length d"
proof -
  from assms obtain sid r1 eid r2 h r3 ord r4 ts r5 k r6 c r7 attrs r8 e r9
    where "unserializehandle d = Some (sid, r1)" and "unserializehandle r1 = Some (eid, r2)"
      and "unserializenodehandle r2 = Some (h, r3)" and "unserializei64 r3 = Some (ord, r4)"
      and "unserializecompressed64 r4 = Some (ts, r5)" and "unserializestring r5 = Some (k, r6)"
      and "unserializeu32 r6 = Some (c, r7)"
      and "unserialize_attrs (unat c) [] r7 = Some (attrs, r8)"
      and "unserializeexpansionflags r8 0 = Some (e, r9)"
    unfolding SetElement_unserialize_def by (auto split: option.splits)
  then show ?thesis
    using unserializehandle_length [of d sid r1] unserializehandle_length [of r1 eid r2]
      unserializenodehandle_length [of r2 h r3] unserializei64_length [of r3 ord r4]
      unserializecompressed64_length [of r4 ts r5] unserializestring_length [of r5 k r6]
      unserializeu32_length [of r6 c r7] unserialize_attrs_length [of "unat c" "[]" r7 attrs r8]
      unserializeexpansionflags_length [of r8 0 e r9]
    by simp
qed

lemma SetElement_unserialize_order:
  assumes "SetElement_unserialize d = Some el"
  shows "mOrder el = Some (word_of_nat (le_val (take 8 (drop (8 + 8 + NODEHANDLE) d))))
         \<and> bit (mChangesEl el) CH_EL_ORDER"
proof -
  from assms obtain sid r1 eid r2 h r3 ord r4 ts k attrs
    where 1: "unserializehandle d = Some (sid, r1)" and 2: "unserializehandle r1 = Some (eid, r2)"
      and 3: "unserializenodehandle r2 = Some (h, r3)" and 4: "unserializei64 r3 = Some (ord, r4)"
      and el: "el = setTs ts (SetElement_setOrder ord (SetElement_new sid h eid k attrs))"
    unfolding SetElement_unserialize_def by (auto split: option.splits)
  from 1 have r1: "r1 = drop 8 d" by (auto simp: unserializehandle_def split: if_splits)
  from 2 have r2: "r2 = drop 8 r1" by (auto simp: unserializehandle_def split: if_splits)
  from 3 have r3: "r3 = drop NODEHANDLE r2" by (auto simp: unserializenodehandle_def split: if_splits)
  from 4 have "ord = word_of_nat (le_val (take 8 r3))"
    by (auto simp: unserializei64_def split: if_splits)
  then have ord: "ord = word_of_nat (le_val (take 8 (drop (8 + 8 + NODEHANDLE) d)))"
    by (simp add: r1 r2 r3 add.commute)
  show ?thesis
    by (simp add: el ord setTs_def SetElement_setOrder_def SetElement_new_def
        SetElement_setChanged_def bit_simps)
qed

section \<open>The cover, the round trip and the decoders\<close>

lemma getAttr_empty_iff:
  "getAttr tag s = []
   \<longleftrightarrow> mAttrs s = None
       \<or> (\<exists>m. mAttrs s = Some m \<and> (map_find m tag = None \<or> map_find m tag = Some []))"
  by (auto simp: getAttr_def split: option.splits)

lemma word64_of_small_neq_UNDEF:
  assumes "n < 2 ^ 56"
  shows "unat (word_of_nat n :: 64 word) = n" and "(word_of_nat n :: 64 word) \<noteq> UNDEF"
proof -
  have lt: "n < 2 ^ 64" using assms by (rule less_trans) simp
  show u: "unat (word_of_nat n :: 64 word) = n"
    using lt by (simp add: unat_of_nat)
  have U: "unat UNDEF = 2 ^ 64 - 1"
    by (simp add: UNDEF_def unsigned_minus_1_eq_mask mask_eq_exp_minus_1)
  show "(word_of_nat n :: 64 word) \<noteq> UNDEF"
  proof
    assume "(word_of_nat n :: 64 word) = UNDEF"
    then have "unat (word_of_nat n :: 64 word) = unat UNDEF" by simp
    with u U have "n = 2 ^ 64 - 1" by simp
    with assms show False by simp
  qed
qed

text \<open>
  C7 (amended): when the cover attribute is absent or empty, \<open>Set_cover\<close> returns
  the sentinel \<open>UNDEF\<close>. When the attribute holds a payload that decodes to fewer
  than \<open>HANDLESIZE\<close> bytes, \<open>Set_cover\<close> returns, without any error, the handle
  made of the decoded bytes over zero high bytes, and this handle is never \<open>UNDEF\<close>.
\<close>

theorem Set_cover_sentinel:
  "((mAttrs s = None
      \<or> (\<exists>m. mAttrs s = Some m \<and> (map_find m coverTag = None \<or> map_find m coverTag = Some [])))
     \<longrightarrow> Set_cover s = UNDEF)
   \<and> (getAttr coverTag s \<noteq> [] \<and> length (atob (getAttr coverTag s) HANDLESIZE) < HANDLESIZE
     \<longrightarrow> unat (Set_cover s) = le_val (atob (getAttr coverTag s) HANDLESIZE)
         \<and> Set_cover s \<noteq> UNDEF)"
proof (intro conjI impI)
  assume "mAttrs s = None
      \<or> (\<exists>m. mAttrs s = Some m \<and> (map_find m coverTag = None \<or> map_find m coverTag = Some []))"
  then have "getAttr coverTag s = []" by (simp add: getAttr_empty_iff)
  then show "Set_cover s = UNDEF" by (simp add: Set_cover_def)
next
  assume a: "getAttr coverTag s \<noteq> [] \<and> length (atob (getAttr coverTag s) HANDLESIZE) < HANDLESIZE"
  let ?bs = "atob (getAttr coverTag s) HANDLESIZE"
  from a have "length ?bs \<le> 7" by (simp add: HANDLESIZE_def)
  then have "(256::nat) ^ length ?bs \<le> 256 ^ 7" by (intro power_increasing) simp_all
  with le_val_bound [of ?bs] have lt: "le_val ?bs < 2 ^ 56" by simp
  from a have c: "Set_cover s = word_of_nat (le_val ?bs)" by (simp add: Set_cover_def)
  from word64_of_small_neq_UNDEF [OF lt] c
  show "unat (Set_cover s) = le_val ?bs" and "Set_cover s \<noteq> UNDEF" by simp_all
qed

text \<open>
  C7 as stated fails: the payload \<open>AAAA\<close> decodes to three bytes, not eight, and
  \<open>Set_cover\<close> returns the handle 0, not the sentinel.
\<close>

theorem Set_cover_malformed_counterexample:
  "length (atob ''AAAA'' HANDLESIZE) \<noteq> HANDLESIZE
   \<and> Set_cover \<lparr>mId = 1, mKey = ''k'', mAttrs = Some [(''c'', ''AAAA'')], mTs = 0,
                 mEncryptedAttrs = None, mUser = 2, mChanges = 0\<rparr> = 0
   \<and> (0 :: handle) \<noteq> UNDEF"
  by (simp add: Set_cover_def getAttr_def coverTag_def atob_def from64_def HANDLESIZE_def UNDEF_def)

theorem Set_cover_sentinel_witness:
  "Set_cover \<lparr>mId = 1, mKey = ''k'', mAttrs = Some [(''n'', ''A'')], mTs = 0,
              mEncryptedAttrs = None, mUser = 2, mChanges = 0\<rparr> = UNDEF
   \<and> Set_cover \<lparr>mId = 1, mKey = ''k'', mAttrs = Some [(''c'', ''AQID'')], mTs = 0,
                 mEncryptedAttrs = None, mUser = 2, mChanges = 0\<rparr> \<noteq> UNDEF
   \<and> unat (Set_cover \<lparr>mId = 1, mKey = ''k'', mAttrs = Some [(''c'', ''AQID'')], mTs = 0,
                 mEncryptedAttrs = None, mUser = 2, mChanges = 0\<rparr>) = 197121"
  using Set_cover_sentinel [of "\<lparr>mId = 1, mKey = ''k'', mAttrs = Some [(''n'', ''A'')], mTs = 0,
              mEncryptedAttrs = None, mUser = 2, mChanges = 0\<rparr>"]
    Set_cover_sentinel [of "\<lparr>mId = 1, mKey = ''k'', mAttrs = Some [(''c'', ''AQID'')], mTs = 0,
              mEncryptedAttrs = None, mUser = 2, mChanges = 0\<rparr>"]
  by (simp add: getAttr_def coverTag_def atob_def from64_def HANDLESIZE_def)

text \<open>
  C1 (amended): for a set that fits the cache format, decoding its encoding gives
  the set with the same id, owner, timestamp and key, with its attribute map
  allocated (empty when it was absent or empty), with no encrypted blob and no
  change bit. For an element that fits the format and whose node handle fits in
  \<open>NODEHANDLE\<close> bytes, decoding its encoding gives the element with the same
  ids, node handle, timestamp and key, its attribute map allocated, and its order
  present: the order it had, or 0 when it had none; the cleared flag is false and
  the order-change bit is the one change bit set.
\<close>

theorem roundtrip_serialized_fields:
  "(fits_wire s \<longrightarrow>
      Set_unserialize (snd (Set_serialize s []))
        = Some (s\<lparr>mAttrs := Some (attrs_or_empty s), mEncryptedAttrs := None, mChanges := 0\<rparr>))
   \<and> (fits_wire el \<and> unat (mNodeHandle el) < 2 ^ (8 * NODEHANDLE) \<longrightarrow>
      SetElement_unserialize (snd (SetElement_serialize el []))
        = Some (el\<lparr>mAttrs := Some (attrs_or_empty el), mEncryptedAttrs := None,
                  mOrder := Some (case mOrder el of Some ord \<Rightarrow> ord | None \<Rightarrow> 0),
                  mAttrsClearedByLastUpdate := False,
                  mChangesEl := set_bit CH_EL_ORDER 0\<rparr>))"
  using Set_roundtrip [of s "[]"] SetElement_roundtrip [of el "[]"] by simp

theorem roundtrip_serialized_fields_witness:
  "Set_unserialize (snd (Set_serialize
       \<lparr>mId = 1, mKey = ''k'', mAttrs = None, mTs = 5, mEncryptedAttrs = Some ''xy'',
        mUser = 2, mChanges = 2\<rparr> []))
     = Some \<lparr>mId = 1, mKey = ''k'', mAttrs = Some [], mTs = 5, mEncryptedAttrs = None,
        mUser = 2, mChanges = 0\<rparr>
   \<and> SetElement_unserialize (snd (SetElement_serialize
       \<lparr>mId = 1, mKey = ''k'', mAttrs = Some [(''n'', ''A'')], mTs = 5, mEncryptedAttrs = None,
        mSetId = 2, mNodeHandle = 3, mOrder = Some 7, mAttrsClearedByLastUpdate = True,
        mChangesEl = 0\<rparr> []))
     = Some \<lparr>mId = 1, mKey = ''k'', mAttrs = Some [(''n'', ''A'')], mTs = 5, mEncryptedAttrs = None,
        mSetId = 2, mNodeHandle = 3, mOrder = Some 7, mAttrsClearedByLastUpdate = False,
        mChangesEl = 4\<rparr>"
  using roundtrip_serialized_fields
    [of "\<lparr>mId = 1, mKey = ''k'', mAttrs = None, mTs = 5, mEncryptedAttrs = Some ''xy'',
          mUser = 2, mChanges = 2\<rparr>"
        "\<lparr>mId = 1, mKey = ''k'', mAttrs = Some [(''n'', ''A'')], mTs = 5, mEncryptedAttrs = None,
          mSetId = 2, mNodeHandle = 3, mOrder = Some 7, mAttrsClearedByLastUpdate = True,
          mChangesEl = 0\<rparr>"]
  by (simp add: fits_wire_def attrs_or_empty_def wf_map_def NODEHANDLE_def CH_EL_ORDER_def)

text \<open>
  C1 as stated fails: an element with no order is written with order 0, and
  decoding gives an element whose order is present and 0.
\<close>

theorem roundtrip_unset_order_counterexample:
  "SetElement_unserialize (snd (SetElement_serialize
       \<lparr>mId = 1, mKey = ''k'', mAttrs = Some [(''n'', ''A'')], mTs = 5, mEncryptedAttrs = None,
        mSetId = 2, mNodeHandle = 3, mOrder = None, mAttrsClearedByLastUpdate = False,
        mChangesEl = 0\<rparr> []))
     = Some \<lparr>mId = 1, mKey = ''k'', mAttrs = Some [(''n'', ''A'')], mTs = 5, mEncryptedAttrs = None,
        mSetId = 2, mNodeHandle = 3, mOrder = Some 0, mAttrsClearedByLastUpdate = False,
        mChangesEl = 4\<rparr>
   \<and> mOrder \<lparr>mId = 1, mKey = ''k'', mAttrs = Some [(''n'', ''A'')], mTs = 5, mEncryptedAttrs = None,
        mSetId = 2, mNodeHandle = 3, mOrder = Some 0, mAttrsClearedByLastUpdate = False,
        mChangesEl = 4\<rparr>
     \<noteq> mOrder \<lparr>mId = 1, mKey = ''k'', mAttrs = Some [(''n'', ''A'')], mTs = 5, mEncryptedAttrs = None,
        mSetId = 2, mNodeHandle = 3, mOrder = None, mAttrsClearedByLastUpdate = False,
        mChangesEl = 0\<rparr>"
  by (simp add: SetElement_serialize_def serializehandle_def serializenodehandle_def serializei64_def
      serializecompressed64_def serializeu32_def NODEHANDLE_def
      serializeexpansionflags_def serializestring_def Let_def
      Serialize64_bytes_0 Serialize64_bytes_numeral
      SetElement_unserialize_def unserializehandle_def unserializenodehandle_def
      unserializei64_def unserializecompressed64_def unserializestring_def unserializeu32_def
      unserializeexpansionflags_def SetElement_new_def setTs_def
      SetElement_setOrder_def SetElement_setChanged_def le_bytes_numeral CH_EL_ORDER_def)

text \<open>
  C10: whenever \<open>SetElement_unserialize\<close> gives an element, its order is present
  and is the i64 read from the input (the 8 bytes after the two handles and the
  node handle), and its order-change bit is set. So an element with no order,
  once encoded and decoded, has the order 0 and the order-change bit set.
\<close>

theorem SetElement_unserialize_sets_order:
  "(SetElement_unserialize d = Some el \<longrightarrow>
      mOrder el = Some (word_of_nat (le_val (take 8 (drop (8 + 8 + NODEHANDLE) d))))
      \<and> bit (mChangesEl el) CH_EL_ORDER)
   \<and> (fits_wire x \<and> unat (mNodeHandle x) < 2 ^ (8 * NODEHANDLE) \<and> mOrder x = None \<longrightarrow>
      (\<exists>el'. SetElement_unserialize (snd (SetElement_serialize x [])) = Some el'
         \<and> mOrder el' = Some 0 \<and> bit (mChangesEl el') CH_EL_ORDER))"
  using SetElement_unserialize_order [of d el] SetElement_roundtrip [of x "[]"]
  by (simp add: bit_simps)

lemmas wire_eval =
  Set_serialize_def SetElement_serialize_def serializehandle_def serializenodehandle_def
  serializei64_def serializecompressed64_def serializeu32_def NODEHANDLE_def
  serializeexpansionflags_def serializestring_def Let_def
  Serialize64_bytes_0 Serialize64_bytes_numeral le_bytes_numeral
  Set_unserialize_def SetElement_unserialize_def unserializehandle_def unserializenodehandle_def
  unserializei64_def unserializecompressed64_def unserializestring_def unserializeu32_def
  unserializeexpansionflags_def Set_new_def SetElement_new_def setTs_def
  SetElement_setOrder_def SetElement_setChanged_def CH_EL_ORDER_def

theorem SetElement_unserialize_sets_order_witness:
  "mOrder \<lparr>mId = 1, mKey = ''k'', mAttrs = Some [(''n'', ''A'')], mTs = 5, mEncryptedAttrs = None,
        mSetId = 2, mNodeHandle = 3, mOrder = Some 0, mAttrsClearedByLastUpdate = False,
        mChangesEl = 4\<rparr>
     = Some (word_of_nat (le_val (take 8 (drop (8 + 8 + NODEHANDLE)
         (snd (SetElement_serialize
           \<lparr>mId = 1, mKey = ''k'', mAttrs = Some [(''n'', ''A'')], mTs = 5, mEncryptedAttrs = None,
            mSetId = 2, mNodeHandle = 3, mOrder = None, mAttrsClearedByLastUpdate = False,
            mChangesEl = 0\<rparr> []))))))
   \<and> bit (4 :: nat) CH_EL_ORDER
   \<and> (\<exists>el'. SetElement_unserialize (snd (SetElement_serialize
           \<lparr>mId = 1, mKey = ''k'', mAttrs = Some [(''n'', ''A'')], mTs = 5, mEncryptedAttrs = None,
            mSetId = 2, mNodeHandle = 3, mOrder = None, mAttrsClearedByLastUpdate = False,
            mChangesEl = 0\<rparr> [])) = Some el'
         \<and> mOrder el' = Some 0 \<and> bit (mChangesEl el') CH_EL_ORDER)"
proof -
  let ?x = "\<lparr>mId = 1, mKey = ''k'', mAttrs = Some [(''n'', ''A'')], mTs = 5, mEncryptedAttrs = None,
            mSetId = 2, mNodeHandle = 3, mOrder = None, mAttrsClearedByLastUpdate = False,
            mChangesEl = 0\<rparr>"
  let ?el = "\<lparr>mId = 1, mKey = ''k'', mAttrs = Some [(''n'', ''A'')], mTs = 5, mEncryptedAttrs = None,
        mSetId = 2, mNodeHandle = 3, mOrder = Some 0, mAttrsClearedByLastUpdate = False,
        mChangesEl = 4\<rparr>"
  have h1: "SetElement_unserialize (snd (SetElement_serialize ?x [])) = Some ?el"
    by (simp add: wire_eval)
  have h2: "fits_wire ?x \<and> unat (mNodeHandle ?x) < 2 ^ (8 * NODEHANDLE) \<and> mOrder ?x = None"
    by (simp add: fits_wire_def attrs_or_empty_def wf_map_def NODEHANDLE_def)
  from SetElement_unserialize_sets_order [of "snd (SetElement_serialize ?x [])" ?el ?x] h1 h2
  show ?thesis by simp
qed

lemma Set_unserialize_Some_iff:
  "Set_unserialize d = Some s \<longleftrightarrow>
     (\<exists>id' r1 u r2 ts r3 k r4 c r5 attrs r6 fl r7.
        unserializehandle d = Some (id', r1) \<and> unserializehandle r1 = Some (u, r2)
        \<and> unserializecompressed64 r2 = Some (ts, r3) \<and> unserializestring r3 = Some (k, r4)
        \<and> unserializeu32 r4 = Some (c, r5)
        \<and> unserialize_attrs (unat c) [] r5 = Some (attrs, r6)
        \<and> unserializeexpansionflags r6 0 = Some (fl, r7)
        \<and> s = setTs ts (Set_new id' k u attrs))"
  unfolding Set_unserialize_def by (auto split: option.splits)

lemma SetElement_unserialize_Some_iff:
  "SetElement_unserialize d = Some el \<longleftrightarrow>
     (\<exists>sid e1 eid e2 h e3 ord e4 ets e5 ek e6 ec e7 eattrs e8 fl e9.
        unserializehandle d = Some (sid, e1) \<and> unserializehandle e1 = Some (eid, e2)
        \<and> unserializenodehandle e2 = Some (h, e3) \<and> unserializei64 e3 = Some (ord, e4)
        \<and> unserializecompressed64 e4 = Some (ets, e5) \<and> unserializestring e5 = Some (ek, e6)
        \<and> unserializeu32 e6 = Some (ec, e7)
        \<and> unserialize_attrs (unat ec) [] e7 = Some (eattrs, e8)
        \<and> unserializeexpansionflags e8 0 = Some (fl, e9)
        \<and> el = setTs ets (SetElement_setOrder ord (SetElement_new sid h eid ek eattrs)))"
  unfolding SetElement_unserialize_def by (auto split: option.splits)

lemma Set_unserialize_failed_read:
  assumes "unserializehandle d = None
     \<or> unserializehandle d = Some (id', r1) \<and>
        (unserializehandle r1 = None
         \<or> unserializehandle r1 = Some (u, r2) \<and>
            (unserializecompressed64 r2 = None
             \<or> unserializecompressed64 r2 = Some (ts, r3) \<and>
                (unserializestring r3 = None
                 \<or> unserializestring r3 = Some (k, r4) \<and>
                    (unserializeu32 r4 = None
                     \<or> unserializeu32 r4 = Some (c, r5) \<and>
                        (unserialize_attrs (unat c) [] r5 = None
                         \<or> unserialize_attrs (unat c) [] r5 = Some (attrs, r6) \<and>
                            unserializeexpansionflags r6 0 = None)))))"
  shows "Set_unserialize d = None"
  using assms unfolding Set_unserialize_def by (auto split: option.splits)

lemma SetElement_unserialize_failed_read:
  assumes "unserializehandle d = None
     \<or> unserializehandle d = Some (sid, e1) \<and>
        (unserializehandle e1 = None
         \<or> unserializehandle e1 = Some (eid, e2) \<and>
            (unserializenodehandle e2 = None
             \<or> unserializenodehandle e2 = Some (h, e3) \<and>
                (unserializei64 e3 = None
                 \<or> unserializei64 e3 = Some (ord, e4) \<and>
                    (unserializecompressed64 e4 = None
                     \<or> unserializecompressed64 e4 = Some (ets, e5) \<and>
                        (unserializestring e5 = None
                         \<or> unserializestring e5 = Some (ek, e6) \<and>
                            (unserializeu32 e6 = None
                             \<or> unserializeu32 e6 = Some (ec, e7) \<and>
                                (unserialize_attrs (unat ec) [] e7 = None
                                 \<or> unserialize_attrs (unat ec) [] e7 = Some (eattrs, e8) \<and>
                                    unserializeexpansionflags e8 0 = None)))))))"
  shows "SetElement_unserialize d = None"
  using assms unfolding SetElement_unserialize_def by (auto split: option.splits)

lemma unserialize_attrs_failed_read:
  assumes "unserializestring a0 = None
     \<or> unserializestring a0 = Some (ak, a1) \<and> unserializestring a1 = None
     \<or> unserializestring a0 = Some (ak, a1) \<and> unserializestring a1 = Some (av, a2)
        \<and> unserialize_attrs n (map_assign acc ak av) a2 = None"
  shows "unserialize_attrs (Suc n) acc a0 = None"
  using assms by auto

lemmas prim_eval =
  serializehandle_def serializenodehandle_def
  serializei64_def serializecompressed64_def serializeu32_def NODEHANDLE_def
  serializeexpansionflags_def serializestring_def Let_def
  Serialize64_bytes_0 Serialize64_bytes_numeral le_bytes_numeral
  unserializehandle_def unserializenodehandle_def
  unserializei64_def unserializecompressed64_def unserializestring_def unserializeu32_def
  unserializeexpansionflags_def

text \<open>
  C2: \<open>Set_unserialize\<close> and \<open>SetElement_unserialize\<close> give either a complete
  entity or nothing. When they give an entity, it is decided by a prefix of the
  input of some length \<open>n\<close>, and every input cut before \<open>n\<close> gives nothing:
  a short read or a truncated string at any field aborts the decode. An input
  shorter than the smallest record gives nothing, and so does an input whose
  attribute count promises more pairs than the bytes after it can hold. A read that
  fails at any field position, after the reads before it succeeded, gives nothing,
  whatever makes it fail (a malformed count byte of the timestamp as well as a
  shortage); inside the attribute loop a failed read of a tag or of a value, or a
  failure further down the loop, gives nothing. An entity is given exactly when every
  read succeeded, and it is then built from the values read.
\<close>

theorem unserialize_all_or_nothing:
  "(Set_unserialize d = Some s \<longrightarrow>
      (\<exists>n\<le>length d. (\<forall>r'. Set_unserialize (take n d @ r') = Some s)
                     \<and> (\<forall>m<n. Set_unserialize (take m d) = None)))
   \<and> (SetElement_unserialize d = Some el \<longrightarrow>
      (\<exists>n\<le>length d. (\<forall>r'. SetElement_unserialize (take n d @ r') = Some el)
                     \<and> (\<forall>m<n. SetElement_unserialize (take m d) = None)))
   \<and> (length d < 31 \<longrightarrow> Set_unserialize d = None)
   \<and> (length d < 39 + NODEHANDLE \<longrightarrow> SetElement_unserialize d = None)
   \<and> (unserializehandle d = Some (id', r1) \<and> unserializehandle r1 = Some (u, r2)
       \<and> unserializecompressed64 r2 = Some (ts, r3) \<and> unserializestring r3 = Some (k, r4)
       \<and> unserializeu32 r4 = Some (c, r5) \<and> length r5 < 4 * unat c + 8
      \<longrightarrow> Set_unserialize d = None)
   \<and> (unserializehandle d = Some (sid, e1) \<and> unserializehandle e1 = Some (eid, e2)
       \<and> unserializenodehandle e2 = Some (h, e3) \<and> unserializei64 e3 = Some (ord, e4)
       \<and> unserializecompressed64 e4 = Some (ets, e5) \<and> unserializestring e5 = Some (ek, e6)
       \<and> unserializeu32 e6 = Some (ec, e7) \<and> length e7 < 4 * unat ec + 8
      \<longrightarrow> SetElement_unserialize d = None)
   \<and> (unserializehandle d = None
       \<or> unserializehandle d = Some (id', r1) \<and>
          (unserializehandle r1 = None
           \<or> unserializehandle r1 = Some (u, r2) \<and>
              (unserializecompressed64 r2 = None
               \<or> unserializecompressed64 r2 = Some (ts, r3) \<and>
                  (unserializestring r3 = None
                   \<or> unserializestring r3 = Some (k, r4) \<and>
                      (unserializeu32 r4 = None
                       \<or> unserializeu32 r4 = Some (c, r5) \<and>
                          (unserialize_attrs (unat c) [] r5 = None
                           \<or> unserialize_attrs (unat c) [] r5 = Some (attrs, r6) \<and>
                              unserializeexpansionflags r6 0 = None)))))
      \<longrightarrow> Set_unserialize d = None)
   \<and> (unserializehandle d = None
       \<or> unserializehandle d = Some (sid, e1) \<and>
          (unserializehandle e1 = None
           \<or> unserializehandle e1 = Some (eid, e2) \<and>
              (unserializenodehandle e2 = None
               \<or> unserializenodehandle e2 = Some (h, e3) \<and>
                  (unserializei64 e3 = None
                   \<or> unserializei64 e3 = Some (ord, e4) \<and>
                      (unserializecompressed64 e4 = None
                       \<or> unserializecompressed64 e4 = Some (ets, e5) \<and>
                          (unserializestring e5 = None
                           \<or> unserializestring e5 = Some (ek, e6) \<and>
                              (unserializeu32 e6 = None
                               \<or> unserializeu32 e6 = Some (ec, e7) \<and>
                                  (unserialize_attrs (unat ec) [] e7 = None
                                   \<or> unserialize_attrs (unat ec) [] e7 = Some (eattrs, e8) \<and>
                                      unserializeexpansionflags e8 0 = None)))))))
      \<longrightarrow> SetElement_unserialize d = None)
   \<and> (unserializestring a0 = None
       \<or> unserializestring a0 = Some (ak, a1) \<and> unserializestring a1 = None
       \<or> unserializestring a0 = Some (ak, a1) \<and> unserializestring a1 = Some (av, a2)
          \<and> unserialize_attrs cnt (map_assign acc ak av) a2 = None
      \<longrightarrow> unserialize_attrs (Suc cnt) acc a0 = None)
   \<and> (Set_unserialize d = Some s \<longleftrightarrow>
      (\<exists>id' r1 u r2 ts r3 k r4 c r5 attrs r6 fl r7.
         unserializehandle d = Some (id', r1) \<and> unserializehandle r1 = Some (u, r2)
         \<and> unserializecompressed64 r2 = Some (ts, r3) \<and> unserializestring r3 = Some (k, r4)
         \<and> unserializeu32 r4 = Some (c, r5)
         \<and> unserialize_attrs (unat c) [] r5 = Some (attrs, r6)
         \<and> unserializeexpansionflags r6 0 = Some (fl, r7)
         \<and> s = setTs ts (Set_new id' k u attrs)))
   \<and> (SetElement_unserialize d = Some el \<longleftrightarrow>
      (\<exists>sid e1 eid e2 h e3 ord e4 ets e5 ek e6 ec e7 eattrs e8 fl e9.
         unserializehandle d = Some (sid, e1) \<and> unserializehandle e1 = Some (eid, e2)
         \<and> unserializenodehandle e2 = Some (h, e3) \<and> unserializei64 e3 = Some (ord, e4)
         \<and> unserializecompressed64 e4 = Some (ets, e5) \<and> unserializestring e5 = Some (ek, e6)
         \<and> unserializeu32 e6 = Some (ec, e7)
         \<and> unserialize_attrs (unat ec) [] e7 = Some (eattrs, e8)
         \<and> unserializeexpansionflags e8 0 = Some (fl, e9)
         \<and> el = setTs ets (SetElement_setOrder ord (SetElement_new sid h eid ek eattrs))))"
proof -
  have 1: "Set_unserialize d = Some s \<longrightarrow>
      (\<exists>n\<le>length d. (\<forall>r'. Set_unserialize (take n d @ r') = Some s)
                     \<and> (\<forall>m<n. Set_unserialize (take m d) = None))"
    using framed_val_Set_unserialize unfolding framed_val_def by blast
  have 2: "SetElement_unserialize d = Some el \<longrightarrow>
      (\<exists>n\<le>length d. (\<forall>r'. SetElement_unserialize (take n d @ r') = Some el)
                     \<and> (\<forall>m<n. SetElement_unserialize (take m d) = None))"
    using framed_val_SetElement_unserialize unfolding framed_val_def by blast
  have 3: "length d < 31 \<longrightarrow> Set_unserialize d = None"
    using Set_unserialize_min_length [of d] by (cases "Set_unserialize d") auto
  have 4: "length d < 39 + NODEHANDLE \<longrightarrow> SetElement_unserialize d = None"
    using SetElement_unserialize_min_length [of d] by (cases "SetElement_unserialize d") auto
  have 5: "unserializehandle d = Some (id', r1) \<and> unserializehandle r1 = Some (u, r2)
       \<and> unserializecompressed64 r2 = Some (ts, r3) \<and> unserializestring r3 = Some (k, r4)
       \<and> unserializeu32 r4 = Some (c, r5) \<and> length r5 < 4 * unat c + 8
      \<longrightarrow> Set_unserialize d = None"
    using Set_unserialize_count [of d id' r1 u r2 ts r3 k r4 c r5] by blast
  have 6: "unserializehandle d = Some (sid, e1) \<and> unserializehandle e1 = Some (eid, e2)
       \<and> unserializenodehandle e2 = Some (h, e3) \<and> unserializei64 e3 = Some (ord, e4)
       \<and> unserializecompressed64 e4 = Some (ets, e5) \<and> unserializestring e5 = Some (ek, e6)
       \<and> unserializeu32 e6 = Some (ec, e7) \<and> length e7 < 4 * unat ec + 8
      \<longrightarrow> SetElement_unserialize d = None"
    using SetElement_unserialize_count [of d sid e1 eid e2 h e3 ord e4 ets e5 ek e6 ec e7] by blast
  have 7: "unserializehandle d = None
       \<or> unserializehandle d = Some (id', r1) \<and>
          (unserializehandle r1 = None
           \<or> unserializehandle r1 = Some (u, r2) \<and>
              (unserializecompressed64 r2 = None
               \<or> unserializecompressed64 r2 = Some (ts, r3) \<and>
                  (unserializestring r3 = None
                   \<or> unserializestring r3 = Some (k, r4) \<and>
                      (unserializeu32 r4 = None
                       \<or> unserializeu32 r4 = Some (c, r5) \<and>
                          (unserialize_attrs (unat c) [] r5 = None
                           \<or> unserialize_attrs (unat c) [] r5 = Some (attrs, r6) \<and>
                              unserializeexpansionflags r6 0 = None)))))
      \<longrightarrow> Set_unserialize d = None"
    by (rule impI) (rule Set_unserialize_failed_read)
  have 8: "unserializehandle d = None
       \<or> unserializehandle d = Some (sid, e1) \<and>
          (unserializehandle e1 = None
           \<or> unserializehandle e1 = Some (eid, e2) \<and>
              (unserializenodehandle e2 = None
               \<or> unserializenodehandle e2 = Some (h, e3) \<and>
                  (unserializei64 e3 = None
                   \<or> unserializei64 e3 = Some (ord, e4) \<and>
                      (unserializecompressed64 e4 = None
                       \<or> unserializecompressed64 e4 = Some (ets, e5) \<and>
                          (unserializestring e5 = None
                           \<or> unserializestring e5 = Some (ek, e6) \<and>
                              (unserializeu32 e6 = None
                               \<or> unserializeu32 e6 = Some (ec, e7) \<and>
                                  (unserialize_attrs (unat ec) [] e7 = None
                                   \<or> unserialize_attrs (unat ec) [] e7 = Some (eattrs, e8) \<and>
                                      unserializeexpansionflags e8 0 = None)))))))
      \<longrightarrow> SetElement_unserialize d = None"
    by (rule impI) (rule SetElement_unserialize_failed_read)
  have 9: "unserializestring a0 = None
       \<or> unserializestring a0 = Some (ak, a1) \<and> unserializestring a1 = None
       \<or> unserializestring a0 = Some (ak, a1) \<and> unserializestring a1 = Some (av, a2)
          \<and> unserialize_attrs cnt (map_assign acc ak av) a2 = None
      \<longrightarrow> unserialize_attrs (Suc cnt) acc a0 = None"
    by (rule impI) (rule unserialize_attrs_failed_read)
  note 10 = Set_unserialize_Some_iff [of d s]
  note 11 = SetElement_unserialize_Some_iff [of d el]
  show ?thesis
    by (intro conjI) (rule 1, rule 2, rule 3, rule 4, rule 5, rule 6, rule 7, rule 8, rule 9,
      rule 10, rule 11)
qed

theorem unserialize_all_or_nothing_witness:
  "(\<exists>n\<le>length (snd (Set_serialize
        \<lparr>mId = 1, mKey = ''k'', mAttrs = Some [(''n'', ''A'')], mTs = 5, mEncryptedAttrs = None,
         mUser = 2, mChanges = 0\<rparr> [])).
      (\<forall>r'. Set_unserialize (take n (snd (Set_serialize
        \<lparr>mId = 1, mKey = ''k'', mAttrs = Some [(''n'', ''A'')], mTs = 5, mEncryptedAttrs = None,
         mUser = 2, mChanges = 0\<rparr> [])) @ r')
         = Some \<lparr>mId = 1, mKey = ''k'', mAttrs = Some [(''n'', ''A'')], mTs = 5,
                 mEncryptedAttrs = None, mUser = 2, mChanges = 0\<rparr>)
      \<and> (\<forall>m<n. Set_unserialize (take m (snd (Set_serialize
        \<lparr>mId = 1, mKey = ''k'', mAttrs = Some [(''n'', ''A'')], mTs = 5, mEncryptedAttrs = None,
         mUser = 2, mChanges = 0\<rparr> []))) = None))
   \<and> (\<exists>n\<le>length (snd (SetElement_serialize
        \<lparr>mId = 1, mKey = ''k'', mAttrs = Some [(''n'', ''A'')], mTs = 5, mEncryptedAttrs = None,
         mSetId = 2, mNodeHandle = 3, mOrder = Some 7, mAttrsClearedByLastUpdate = False,
         mChangesEl = 4\<rparr> [])).
      (\<forall>r'. SetElement_unserialize (take n (snd (SetElement_serialize
        \<lparr>mId = 1, mKey = ''k'', mAttrs = Some [(''n'', ''A'')], mTs = 5, mEncryptedAttrs = None,
         mSetId = 2, mNodeHandle = 3, mOrder = Some 7, mAttrsClearedByLastUpdate = False,
         mChangesEl = 4\<rparr> [])) @ r')
         = Some \<lparr>mId = 1, mKey = ''k'', mAttrs = Some [(''n'', ''A'')], mTs = 5,
                 mEncryptedAttrs = None, mSetId = 2, mNodeHandle = 3, mOrder = Some 7,
                 mAttrsClearedByLastUpdate = False, mChangesEl = 4\<rparr>)
      \<and> (\<forall>m<n. SetElement_unserialize (take m (snd (SetElement_serialize
        \<lparr>mId = 1, mKey = ''k'', mAttrs = Some [(''n'', ''A'')], mTs = 5, mEncryptedAttrs = None,
         mSetId = 2, mNodeHandle = 3, mOrder = Some 7, mAttrsClearedByLastUpdate = False,
         mChangesEl = 4\<rparr> []))) = None))
   \<and> Set_unserialize [] = None
   \<and> SetElement_unserialize [] = None
   \<and> Set_unserialize
        (serializeexpansionflags (serializeu32 1 (serializestring ''k''
           (serializecompressed64 5 (serializehandle 2 (serializehandle 1 [])))))) = None
   \<and> SetElement_unserialize
        (serializeexpansionflags (serializeu32 1 (serializestring ''k''
           (serializecompressed64 5 (serializei64 7 (serializenodehandle 3
              (serializehandle 1 (serializehandle 2 [])))))))) = None
   \<and> Set_unserialize (serializehandle 1 []) = None
   \<and> Set_unserialize (serializehandle 2 (serializehandle 1 [])) = None
   \<and> Set_unserialize
        (serializehandle 2 (serializehandle 1 []) @ CHR 0x09 # replicate 22 (CHR 0x00)) = None
   \<and> Set_unserialize (serializecompressed64 5 (serializehandle 2 (serializehandle 1 []))) = None
   \<and> Set_unserialize (serializestring ''k''
        (serializecompressed64 5 (serializehandle 2 (serializehandle 1 [])))) = None
   \<and> Set_unserialize (serializeu32 1 (serializestring ''k''
        (serializecompressed64 5 (serializehandle 2 (serializehandle 1 []))))) = None
   \<and> Set_unserialize (serialize_attrs [(''n'', ''A'')] (serializeu32 1 (serializestring ''k''
        (serializecompressed64 5 (serializehandle 2 (serializehandle 1 [])))))) = None
   \<and> SetElement_unserialize (serializehandle 2 []) = None
   \<and> SetElement_unserialize (serializehandle 1 (serializehandle 2 [])) = None
   \<and> SetElement_unserialize (serializenodehandle 3 (serializehandle 1 (serializehandle 2 [])))
       = None
   \<and> SetElement_unserialize (serializei64 7 (serializenodehandle 3
        (serializehandle 1 (serializehandle 2 [])))) = None
   \<and> SetElement_unserialize
        (serializei64 7 (serializenodehandle 3 (serializehandle 1 (serializehandle 2 [])))
           @ CHR 0x09 # replicate 22 (CHR 0x00)) = None
   \<and> SetElement_unserialize (serializecompressed64 5 (serializei64 7 (serializenodehandle 3
        (serializehandle 1 (serializehandle 2 []))))) = None
   \<and> SetElement_unserialize (serializestring ''k'' (serializecompressed64 5 (serializei64 7
        (serializenodehandle 3 (serializehandle 1 (serializehandle 2 [])))))) = None
   \<and> SetElement_unserialize (serializeu32 1 (serializestring ''k'' (serializecompressed64 5
        (serializei64 7 (serializenodehandle 3 (serializehandle 1 (serializehandle 2 []))))))) = None
   \<and> SetElement_unserialize (serialize_attrs [(''n'', ''A'')] (serializeu32 1
        (serializestring ''k'' (serializecompressed64 5 (serializei64 7 (serializenodehandle 3
           (serializehandle 1 (serializehandle 2 [])))))))) = None
   \<and> unserialize_attrs (Suc 0) [] [] = None
   \<and> unserialize_attrs (Suc 0) [] (serializestring ''n'' []) = None
   \<and> unserialize_attrs (Suc (Suc 0)) [] (serializestring ''A'' (serializestring ''n'' [])) = None
   \<and> Set_unserialize (snd (Set_serialize
        \<lparr>mId = 1, mKey = ''k'', mAttrs = Some [(''n'', ''A'')], mTs = 5, mEncryptedAttrs = None,
         mUser = 2, mChanges = 0\<rparr> []))
       = Some \<lparr>mId = 1, mKey = ''k'', mAttrs = Some [(''n'', ''A'')], mTs = 5,
               mEncryptedAttrs = None, mUser = 2, mChanges = 0\<rparr>
   \<and> SetElement_unserialize (snd (SetElement_serialize
        \<lparr>mId = 1, mKey = ''k'', mAttrs = Some [(''n'', ''A'')], mTs = 5, mEncryptedAttrs = None,
         mSetId = 2, mNodeHandle = 3, mOrder = Some 7, mAttrsClearedByLastUpdate = False,
         mChangesEl = 4\<rparr> []))
       = Some \<lparr>mId = 1, mKey = ''k'', mAttrs = Some [(''n'', ''A'')], mTs = 5,
               mEncryptedAttrs = None, mSetId = 2, mNodeHandle = 3, mOrder = Some 7,
               mAttrsClearedByLastUpdate = False, mChangesEl = 4\<rparr>"
proof -
  let ?s = "\<lparr>mId = 1, mKey = ''k'', mAttrs = Some [(''n'', ''A'')], mTs = 5, mEncryptedAttrs = None,
         mUser = 2, mChanges = 0\<rparr>"
  let ?el = "\<lparr>mId = 1, mKey = ''k'', mAttrs = Some [(''n'', ''A'')], mTs = 5, mEncryptedAttrs = None,
         mSetId = 2, mNodeHandle = 3, mOrder = Some 7, mAttrsClearedByLastUpdate = False,
         mChangesEl = 4\<rparr>"
  let ?D = "snd (Set_serialize ?s [])"
  let ?E = "snd (SetElement_serialize ?el [])"
  let ?D1 = "serializeexpansionflags (serializeu32 1 (serializestring ''k''
           (serializecompressed64 5 (serializehandle 2 (serializehandle 1 [])))))"
  let ?E1 = "serializeexpansionflags (serializeu32 1 (serializestring ''k''
           (serializecompressed64 5 (serializei64 7 (serializenodehandle 3
              (serializehandle 1 (serializehandle 2 [])))))))"
  note T = unserialize_all_or_nothing
  have S: "(unserializehandle X = None
       \<or> unserializehandle X = Some (1, drop 8 X) \<and>
          (unserializehandle (drop 8 X) = None
           \<or> unserializehandle (drop 8 X) = Some (2, drop 16 X) \<and>
              (unserializecompressed64 (drop 16 X) = None
               \<or> unserializecompressed64 (drop 16 X) = Some (5, drop 18 X) \<and>
                  (unserializestring (drop 18 X) = None
                   \<or> unserializestring (drop 18 X) = Some (''k'', drop 21 X) \<and>
                      (unserializeu32 (drop 21 X) = None
                       \<or> unserializeu32 (drop 21 X) = Some (1, drop 25 X) \<and>
                          (unserialize_attrs (unat (1 :: 32 word)) [] (drop 25 X) = None
                           \<or> unserialize_attrs (unat (1 :: 32 word)) [] (drop 25 X)
                                = Some ([(''n'', ''A'')], drop 31 X) \<and>
                              unserializeexpansionflags (drop 31 X) 0 = None))))))
      \<longrightarrow> Set_unserialize X = None" for X
    by (rule T [where d = X and id' = 1 and ?r1.0 = "drop 8 X" and u = 2 and ?r2.0 = "drop 16 X"
        and ts = 5 and ?r3.0 = "drop 18 X" and k = "''k''" and ?r4.0 = "drop 21 X" and c = 1
        and ?r5.0 = "drop 25 X" and attrs = "[(''n'', ''A'')]" and ?r6.0 = "drop 31 X",
        THEN conjunct2, THEN conjunct2, THEN conjunct2, THEN conjunct2, THEN conjunct2,
        THEN conjunct2, THEN conjunct1])
  have L: "(unserializehandle X = None
       \<or> unserializehandle X = Some (2, drop 8 X) \<and>
          (unserializehandle (drop 8 X) = None
           \<or> unserializehandle (drop 8 X) = Some (1, drop 16 X) \<and>
              (unserializenodehandle (drop 16 X) = None
               \<or> unserializenodehandle (drop 16 X) = Some (3, drop 22 X) \<and>
                  (unserializei64 (drop 22 X) = None
                   \<or> unserializei64 (drop 22 X) = Some (7, drop 30 X) \<and>
                      (unserializecompressed64 (drop 30 X) = None
                       \<or> unserializecompressed64 (drop 30 X) = Some (5, drop 32 X) \<and>
                          (unserializestring (drop 32 X) = None
                           \<or> unserializestring (drop 32 X) = Some (''k'', drop 35 X) \<and>
                              (unserializeu32 (drop 35 X) = None
                               \<or> unserializeu32 (drop 35 X) = Some (1, drop 39 X) \<and>
                                  (unserialize_attrs (unat (1 :: 32 word)) [] (drop 39 X) = None
                                   \<or> unserialize_attrs (unat (1 :: 32 word)) [] (drop 39 X)
                                        = Some ([(''n'', ''A'')], drop 45 X) \<and>
                                      unserializeexpansionflags (drop 45 X) 0 = None))))))))
      \<longrightarrow> SetElement_unserialize X = None" for X
    by (rule T [where d = X and sid = 2 and ?e1.0 = "drop 8 X" and eid = 1 and ?e2.0 = "drop 16 X"
        and h = 3 and ?e3.0 = "drop 22 X" and ord = 7 and ?e4.0 = "drop 30 X" and ets = 5
        and ?e5.0 = "drop 32 X" and ek = "''k''" and ?e6.0 = "drop 35 X" and ec = 1
        and ?e7.0 = "drop 39 X" and eattrs = "[(''n'', ''A'')]" and ?e8.0 = "drop 45 X",
        THEN conjunct2, THEN conjunct2, THEN conjunct2, THEN conjunct2, THEN conjunct2,
        THEN conjunct2, THEN conjunct2, THEN conjunct1])
  have A: "(unserializestring X = None
       \<or> unserializestring X = Some (''n'', drop 3 X) \<and> unserializestring (drop 3 X) = None
       \<or> unserializestring X = Some (''n'', drop 3 X)
          \<and> unserializestring (drop 3 X) = Some (''A'', drop 6 X)
          \<and> unserialize_attrs n (map_assign [] ''n'' ''A'') (drop 6 X) = None)
      \<longrightarrow> unserialize_attrs (Suc n) [] X = None" for X n
    by (rule T [where ?a0.0 = X and ak = "''n''" and ?a1.0 = "drop 3 X" and av = "''A''"
        and ?a2.0 = "drop 6 X" and cnt = n and acc = "[]",
        THEN conjunct2, THEN conjunct2, THEN conjunct2, THEN conjunct2, THEN conjunct2,
        THEN conjunct2, THEN conjunct2, THEN conjunct2, THEN conjunct1])
  have a: "Set_unserialize ?D = Some ?s"
    using T [where d = ?D and s = ?s, THEN conjunct2, THEN conjunct2, THEN conjunct2,
        THEN conjunct2, THEN conjunct2, THEN conjunct2, THEN conjunct2, THEN conjunct2,
        THEN conjunct2, THEN conjunct1]
    by (simp add: prim_eval Set_serialize_def Set_new_def setTs_def)
  have b: "SetElement_unserialize ?E = Some ?el"
    using T [where d = ?E and el = ?el, THEN conjunct2, THEN conjunct2, THEN conjunct2,
        THEN conjunct2, THEN conjunct2, THEN conjunct2, THEN conjunct2, THEN conjunct2,
        THEN conjunct2, THEN conjunct2]
    by (simp add: prim_eval SetElement_serialize_def SetElement_new_def setTs_def
        SetElement_setOrder_def SetElement_setChanged_def CH_EL_ORDER_def)
  have c: "unserializehandle ?D1 = Some (1, drop 8 ?D1)
      \<and> unserializehandle (drop 8 ?D1) = Some (2, drop 16 ?D1)
      \<and> unserializecompressed64 (drop 16 ?D1) = Some (5, drop 18 ?D1)
      \<and> unserializestring (drop 18 ?D1) = Some (''k'', drop 21 ?D1)
      \<and> unserializeu32 (drop 21 ?D1) = Some (1, drop 25 ?D1)
      \<and> length (drop 25 ?D1) < 4 * unat (1 :: 32 word) + 8"
    by (simp add: prim_eval)
  have d: "unserializehandle ?E1 = Some (2, drop 8 ?E1)
      \<and> unserializehandle (drop 8 ?E1) = Some (1, drop 16 ?E1)
      \<and> unserializenodehandle (drop 16 ?E1) = Some (3, drop 22 ?E1)
      \<and> unserializei64 (drop 22 ?E1) = Some (7, drop 30 ?E1)
      \<and> unserializecompressed64 (drop 30 ?E1) = Some (5, drop 32 ?E1)
      \<and> unserializestring (drop 32 ?E1) = Some (''k'', drop 35 ?E1)
      \<and> unserializeu32 (drop 35 ?E1) = Some (1, drop 39 ?E1)
      \<and> length (drop 39 ?E1) < 4 * unat (1 :: 32 word) + 8"
    by (simp add: prim_eval)
  have 1: "\<exists>n\<le>length ?D. (\<forall>r'. Set_unserialize (take n ?D @ r') = Some ?s)
                     \<and> (\<forall>m<n. Set_unserialize (take m ?D) = None)"
    using T [where d = ?D and s = ?s, THEN conjunct1] a by (rule mp)
  have 2: "\<exists>n\<le>length ?E. (\<forall>r'. SetElement_unserialize (take n ?E @ r') = Some ?el)
                     \<and> (\<forall>m<n. SetElement_unserialize (take m ?E) = None)"
    using T [where d = ?E and el = ?el, THEN conjunct2, THEN conjunct1] b by (rule mp)
  have 3: "Set_unserialize [] = None"
    using T [where d = "[]", THEN conjunct2, THEN conjunct2, THEN conjunct1] by simp
  have 4: "SetElement_unserialize [] = None"
    using T [where d = "[]", THEN conjunct2, THEN conjunct2, THEN conjunct2, THEN conjunct1]
    by simp
  have 5: "Set_unserialize ?D1 = None"
    using T [where d = ?D1 and id' = 1 and ?r1.0 = "drop 8 ?D1"
        and u = 2 and ?r2.0 = "drop 16 ?D1" and ts = 5 and ?r3.0 = "drop 18 ?D1"
        and k = "''k''" and ?r4.0 = "drop 21 ?D1" and c = 1 and ?r5.0 = "drop 25 ?D1",
        THEN conjunct2, THEN conjunct2, THEN conjunct2, THEN conjunct2, THEN conjunct1] c
    by (rule mp)
  have 6: "SetElement_unserialize ?E1 = None"
    using T [where d = ?E1 and sid = 2 and ?e1.0 = "drop 8 ?E1"
        and eid = 1 and ?e2.0 = "drop 16 ?E1" and h = 3 and ?e3.0 = "drop 22 ?E1"
        and ord = 7 and ?e4.0 = "drop 30 ?E1" and ets = 5 and ?e5.0 = "drop 32 ?E1"
        and ek = "''k''" and ?e6.0 = "drop 35 ?E1" and ec = 1 and ?e7.0 = "drop 39 ?E1",
        THEN conjunct2, THEN conjunct2, THEN conjunct2, THEN conjunct2, THEN conjunct2,
        THEN conjunct1] d
    by (rule mp)
  have s2: "Set_unserialize (serializehandle 1 []) = None"
    using S [of "serializehandle 1 []"] by (simp add: prim_eval)
  have s3: "Set_unserialize (serializehandle 2 (serializehandle 1 [])) = None"
    using S [of "serializehandle 2 (serializehandle 1 [])"] by (simp add: prim_eval)
  have s3': "Set_unserialize
        (serializehandle 2 (serializehandle 1 []) @ CHR 0x09 # replicate 22 (CHR 0x00)) = None"
    using S [of "serializehandle 2 (serializehandle 1 []) @ CHR 0x09 # replicate 22 (CHR 0x00)"]
    by (simp add: prim_eval)
  have s4: "Set_unserialize (serializecompressed64 5 (serializehandle 2 (serializehandle 1 [])))
      = None"
    using S [of "serializecompressed64 5 (serializehandle 2 (serializehandle 1 []))"]
    by (simp add: prim_eval)
  have s5: "Set_unserialize (serializestring ''k''
        (serializecompressed64 5 (serializehandle 2 (serializehandle 1 [])))) = None"
    using S [of "serializestring ''k''
        (serializecompressed64 5 (serializehandle 2 (serializehandle 1 [])))"]
    by (simp add: prim_eval)
  have s6: "Set_unserialize (serializeu32 1 (serializestring ''k''
        (serializecompressed64 5 (serializehandle 2 (serializehandle 1 []))))) = None"
    using S [of "serializeu32 1 (serializestring ''k''
        (serializecompressed64 5 (serializehandle 2 (serializehandle 1 []))))"]
    by (simp add: prim_eval)
  have s7: "Set_unserialize (serialize_attrs [(''n'', ''A'')] (serializeu32 1 (serializestring ''k''
        (serializecompressed64 5 (serializehandle 2 (serializehandle 1 [])))))) = None"
    using S [of "serialize_attrs [(''n'', ''A'')] (serializeu32 1 (serializestring ''k''
        (serializecompressed64 5 (serializehandle 2 (serializehandle 1 [])))))"]
    by (simp add: prim_eval)
  have l2: "SetElement_unserialize (serializehandle 2 []) = None"
    using L [of "serializehandle 2 []"] by (simp add: prim_eval)
  have l3: "SetElement_unserialize (serializehandle 1 (serializehandle 2 [])) = None"
    using L [of "serializehandle 1 (serializehandle 2 [])"] by (simp add: prim_eval)
  have l4: "SetElement_unserialize (serializenodehandle 3 (serializehandle 1 (serializehandle 2 [])))
       = None"
    using L [of "serializenodehandle 3 (serializehandle 1 (serializehandle 2 []))"]
    by (simp add: prim_eval)
  have l5: "SetElement_unserialize (serializei64 7 (serializenodehandle 3
        (serializehandle 1 (serializehandle 2 [])))) = None"
    using L [of "serializei64 7 (serializenodehandle 3
        (serializehandle 1 (serializehandle 2 [])))"]
    by (simp add: prim_eval)
  have l5': "SetElement_unserialize
        (serializei64 7 (serializenodehandle 3 (serializehandle 1 (serializehandle 2 [])))
           @ CHR 0x09 # replicate 22 (CHR 0x00)) = None"
    using L [of "serializei64 7 (serializenodehandle 3 (serializehandle 1 (serializehandle 2 [])))
           @ CHR 0x09 # replicate 22 (CHR 0x00)"]
    by (simp add: prim_eval)
  have l6: "SetElement_unserialize (serializecompressed64 5 (serializei64 7 (serializenodehandle 3
        (serializehandle 1 (serializehandle 2 []))))) = None"
    using L [of "serializecompressed64 5 (serializei64 7 (serializenodehandle 3
        (serializehandle 1 (serializehandle 2 []))))"]
    by (simp add: prim_eval)
  have l7: "SetElement_unserialize (serializestring ''k'' (serializecompressed64 5 (serializei64 7
        (serializenodehandle 3 (serializehandle 1 (serializehandle 2 [])))))) = None"
    using L [of "serializestring ''k'' (serializecompressed64 5 (serializei64 7
        (serializenodehandle 3 (serializehandle 1 (serializehandle 2 [])))))"]
    by (simp add: prim_eval)
  have l8: "SetElement_unserialize (serializeu32 1 (serializestring ''k'' (serializecompressed64 5
        (serializei64 7 (serializenodehandle 3 (serializehandle 1 (serializehandle 2 []))))))) = None"
    using L [of "serializeu32 1 (serializestring ''k'' (serializecompressed64 5
        (serializei64 7 (serializenodehandle 3 (serializehandle 1 (serializehandle 2 []))))))"]
    by (simp add: prim_eval)
  have l9: "SetElement_unserialize (serialize_attrs [(''n'', ''A'')] (serializeu32 1
        (serializestring ''k'' (serializecompressed64 5 (serializei64 7 (serializenodehandle 3
           (serializehandle 1 (serializehandle 2 [])))))))) = None"
    using L [of "serialize_attrs [(''n'', ''A'')] (serializeu32 1
        (serializestring ''k'' (serializecompressed64 5 (serializei64 7 (serializenodehandle 3
           (serializehandle 1 (serializehandle 2 [])))))))"]
    by (simp add: prim_eval)
  have a1: "unserialize_attrs (Suc 0) [] [] = None"
    using A [of "[]" 0] by (simp only: unserializestring_short) simp
  have a2: "unserialize_attrs (Suc 0) [] (serializestring ''n'' []) = None"
    using A [of "serializestring ''n'' []" 0] by (simp add: prim_eval del: unserialize_attrs.simps)
  have a3: "unserialize_attrs (Suc (Suc 0)) [] (serializestring ''A'' (serializestring ''n'' []))
      = None"
    using A [of "serializestring ''A'' (serializestring ''n'' [])" "Suc 0"]
    by (simp add: prim_eval)
  from 1 2 3 4 5 6 s2 s3 s3' s4 s5 s6 s7 l2 l3 l4 l5 l5' l6 l7 l8 l9 a1 a2 a3 a b
  show ?thesis by (intro conjI)
qed

end
